theory Spec2Isabelle
  imports Complex_Main "HOL-Library.Word" "HOL-Library.Log_Nat"
begin

unbundle bit_operations_syntax

section \<open>Numbers\<close>

text \<open>
  The program is \<^verbatim>\<open>Source/Main.cpp\<close>: one function \<^verbatim>\<open>wmain\<close> and the helper
  \<^verbatim>\<open>parseHexColor\<close>, written against the JUCE library.

  Every finite \<^verbatim>\<open>double\<close> and \<^verbatim>\<open>float\<close> is a rational number, so the values of
  both types are modelled as \<open>rat\<close>. Comparisons, \<^verbatim>\<open>jmin\<close>, \<^verbatim>\<open>jlimit\<close> and the
  min/max scan are exact on them. Every arithmetic operation and every conversion from
  an integer rounds its exact result to the nearest value of its format, ties to the
  even significand, as IEEE 754 binary64 and binary32 arithmetic does: 53 significant
  bits and a least quantum of 2 to the power -1074 for \<^verbatim>\<open>double\<close>, 24 bits and 2 to
  the power -149 for \<^verbatim>\<open>float\<close>. An expression of type \<^verbatim>\<open>float\<close> is evaluated in \<^verbatim>\<open>float\<close>, without
  excess precision or fused operations. NaN, the infinities, a result beyond the largest
  finite value and a division by zero are not represented.
\<close>

type_synonym double = rat
type_synonym float = rat

text \<open>
  For \<open>x > 0\<close>, \<open>ilog2 x\<close> is the exponent \<open>k\<close> with \<open>pow2 k \<le> x < pow2 (k + 1)\<close>, where
  \<open>pow2 e\<close> is 2 to the power \<open>e\<close>.
\<close>

definition ilog2 :: "rat \<Rightarrow> int" where
  "ilog2 x = (if 1 \<le> x then bitlen \<lfloor>x\<rfloor> - 1 else - bitlen (\<lceil>1 / x\<rceil> - 1))"

definition pow2 :: "int \<Rightarrow> rat" where
  "pow2 e = (if 0 \<le> e then 2 ^ nat e else 1 / 2 ^ nat (- e))"

definition roundHalfEven :: "rat \<Rightarrow> int" where
  "roundHalfEven y =
     (let f = \<lfloor>y\<rfloor>; d = y - of_int f
      in if d < 1 / 2 then f else if 1 / 2 < d then f + 1 else if even f then f else f + 1)"

text \<open>
  Rounding to \<open>p\<close> significant bits with least quantum \<open>pow2 emin\<close>: the quantum of
  \<open>x\<close> is \<open>pow2 e\<close> for \<open>e = max (ilog2 |x| - (p - 1)) emin\<close>, and \<open>x\<close> goes to the
  nearest multiple of its quantum, a tie to the even multiple.
\<close>

definition roundTo :: "nat \<Rightarrow> int \<Rightarrow> rat \<Rightarrow> rat" where
  "roundTo p emin x =
     (if x = 0 then 0
      else (let e = max (ilog2 \<bar>x\<bar> - (int p - 1)) emin
            in of_int (roundHalfEven (x / pow2 e)) * pow2 e))"

definition fl64 :: "rat \<Rightarrow> double" where
  "fl64 = roundTo 53 (- 1074)"

definition fl32 :: "rat \<Rightarrow> float" where
  "fl32 = roundTo 24 (- 149)"

text \<open>The operations of \<^verbatim>\<open>double\<close> and of \<^verbatim>\<open>float\<close>, and the conversions from integers.\<close>

definition dadd :: "double \<Rightarrow> double \<Rightarrow> double" where
  "dadd a b = fl64 (a + b)"

definition dsub :: "double \<Rightarrow> double \<Rightarrow> double" where
  "dsub a b = fl64 (a - b)"

definition dmul :: "double \<Rightarrow> double \<Rightarrow> double" where
  "dmul a b = fl64 (a * b)"

definition ddiv :: "double \<Rightarrow> double \<Rightarrow> double" where
  "ddiv a b = fl64 (a / b)"

definition toDouble :: "int \<Rightarrow> double" where
  "toDouble n = fl64 (of_int n)"

definition fadd :: "float \<Rightarrow> float \<Rightarrow> float" where
  "fadd a b = fl32 (a + b)"

definition fsub :: "float \<Rightarrow> float \<Rightarrow> float" where
  "fsub a b = fl32 (a - b)"

definition fmul :: "float \<Rightarrow> float \<Rightarrow> float" where
  "fmul a b = fl32 (a * b)"

definition fdiv :: "float \<Rightarrow> float \<Rightarrow> float" where
  "fdiv a b = fl32 (a / b)"

definition toFloat :: "int \<Rightarrow> float" where
  "toFloat n = fl32 (of_int n)"

text \<open>
  \<^verbatim>\<open>jmin\<close> and \<^verbatim>\<open>jlimit\<close> are JUCE's (\<^verbatim>\<open>juce_MathsFunctions.h\<close>), the minimum and
  the clamp of the specification. \<^verbatim>\<open>jmin (a, b)\<close> is \<^verbatim>\<open>b < a ? b : a\<close>.
\<close>

definition jmin :: "'a::linorder \<Rightarrow> 'a \<Rightarrow> 'a" where
  "jmin a b = (if b < a then b else a)"

text \<open>
  \<^verbatim>\<open>jlimit (lowerLimit, upperLimit, valueToConstrain)\<close> is
  \<^verbatim>\<open>v < lo ? lo : (hi < v ? hi : v)\<close>. Its \<^verbatim>\<open>jassert (lo <= hi)\<close> is compiled out of
  a release build, so a call with \<open>hi < lo\<close> returns by the same expression: \<open>lo\<close>
  for a value below \<open>lo\<close>, and \<open>hi\<close> for every other value.
\<close>

definition jlimit :: "'a::linorder \<Rightarrow> 'a \<Rightarrow> 'a \<Rightarrow> 'a" where
  "jlimit lowerLimit upperLimit valueToConstrain =
     (if valueToConstrain < lowerLimit then lowerLimit
      else if upperLimit < valueToConstrain then upperLimit
      else valueToConstrain)"

text \<open>The specification's clamp of \<open>x\<close> between \<open>lo\<close> and \<open>hi\<close>.\<close>

definition clamp :: "'a::linorder \<Rightarrow> 'a \<Rightarrow> 'a \<Rightarrow> 'a" where
  "clamp x lo hi = (if x < lo then lo else if hi < x then hi else x)"

text \<open>
  A C++ conversion from \<^verbatim>\<open>double\<close> to an integer type (\<^verbatim>\<open>static_cast<int64>\<close>,
  \<^verbatim>\<open>(int)\<close>) discards the fractional part: it truncates toward zero. A value outside
  the range of the integer type has no defined result in C++ and is not represented.
\<close>

definition truncToZero :: "double \<Rightarrow> int" where
  "truncToZero x = (if 0 \<le> x then \<lfloor>x\<rfloor> else \<lceil>x\<rceil>)"

text \<open>The conversion \<^verbatim>\<open>(int) numSamples\<close> of an \<^verbatim>\<open>int64\<close> keeps the low 32 bits.\<close>

definition int32 :: "int \<Rightarrow> int" where
  "int32 n = sint (word_of_int n :: 32 word)"

section \<open>Rasterizer (Main.cpp, lines 133 to 164)\<close>

text \<open>
  What stops the program outside its defined behaviour: reading \<^verbatim>\<open>samples[j]\<close> at an
  index outside the buffer, and constructing the buffer with a negative length.
\<close>

datatype fault = SampleIndexOutOfRange int | NegativeBufferSize int

text \<open>
  Lines 144 to 147: the sample sub-range of pixel column \<open>i\<close>. The quotient
  \<^verbatim>\<open>i / (double) width\<close> and its product with \<^verbatim>\<open>numSamples\<close> (an \<^verbatim>\<open>int64\<close>, converted)
  are operations of \<^verbatim>\<open>double\<close>.
\<close>

definition sampleRange :: "int \<Rightarrow> int \<Rightarrow> int \<Rightarrow> int \<times> int" where
  "sampleRange width numSamples i =
     (let sampleStart = truncToZero (dmul (ddiv (toDouble i) (toDouble width)) (toDouble numSamples));
          sampleEnd = truncToZero (dmul (ddiv (toDouble (i + 1)) (toDouble width)) (toDouble numSamples))
      in (jlimit 0 (int32 numSamples - 1) sampleStart, jlimit 0 (int32 numSamples) sampleEnd))"

text \<open>
  Lines 149 to 154: the scan of \<^verbatim>\<open>samples[j]\<close> for \<open>j\<close> from \<open>sampleStart\<close> up to
  \<open>sampleEnd\<close>, carrying \<open>(minVal, maxVal)\<close>. The buffer holds \<open>length samples\<close> values.
\<close>

function scan :: "float list \<Rightarrow> int \<Rightarrow> int \<Rightarrow> float \<times> float \<Rightarrow> fault + float \<times> float" where
  "scan samples j sampleEnd (minVal, maxVal) =
     (if j < sampleEnd then
        (if 0 \<le> j \<and> j < int (length samples) then
           (let s = samples ! nat j
            in scan samples (j + 1) sampleEnd
                 (if s < minVal then s else minVal, if s > maxVal then s else maxVal))
         else Inl (SampleIndexOutOfRange j))
      else Inr (minVal, maxVal))"
  by pat_completeness auto
termination
  by (relation "measure (\<lambda>(samples, j, sampleEnd, m). nat (sampleEnd - j))") auto

declare scan.simps [simp del]

text \<open>The envelope of a column: the scan started from the seeds \<open>(1.0, -1.0)\<close> (line 149).\<close>

definition envelope :: "float list \<Rightarrow> int \<Rightarrow> int \<Rightarrow> int \<Rightarrow> fault + float \<times> float" where
  "envelope samples width numSamples i =
     (case sampleRange width numSamples i of
        (sampleStart, sampleEnd) \<Rightarrow> scan samples sampleStart sampleEnd (1, -1))"

text \<open>
  The specification's wording: the samples of the sub-range, and their minimum and
  maximum together with the seeds.
\<close>

definition samplesBetween :: "float list \<Rightarrow> int \<Rightarrow> int \<Rightarrow> float list" where
  "samplesBetween samples sampleStart sampleEnd =
     map (\<lambda>j. samples ! nat j) [sampleStart..sampleEnd - 1]"

definition specEnvelope :: "float list \<Rightarrow> float \<times> float" where
  "specEnvelope xs = (Min (insert 1 (set xs)), Max (insert (-1) (set xs)))"

text \<open>
  The specification's formula for the sub-range, read in exact arithmetic:
  \<open>floor (i / W * N)\<close> clamped into \<open>[0, N - 1]\<close> and \<open>floor ((i + 1) / W * N)\<close>
  clamped into \<open>[0, N]\<close>.
\<close>

definition specSampleRange :: "int \<Rightarrow> int \<Rightarrow> int \<Rightarrow> int \<times> int" where
  "specSampleRange W N i =
     (clamp \<lfloor>(of_int i / of_int W) * (of_int N :: rat)\<rfloor> 0 (N - 1),
      clamp \<lfloor>(of_int (i + 1) / of_int W) * (of_int N :: rat)\<rfloor> 0 N)"

text \<open>
  Lines 134, 140 and 141: the height of a channel's band, its top and its vertical
  centre, all in \<^verbatim>\<open>float\<close>: \<^verbatim>\<open>(float) height / numChannels\<close>,
  \<^verbatim>\<open>ch * channelHeight\<close> and \<^verbatim>\<open>top + channelHeight / 2.0f\<close>, the \<^verbatim>\<open>int\<close> operands
  converted. With no channel (\<open>numChannels = 0\<close>) the C++ quotient is an infinity or NaN
  that no iteration reads, where HOL's is 0.
\<close>

definition channelHeightOf :: "int \<Rightarrow> int \<Rightarrow> float" where
  "channelHeightOf height numChannels = fdiv (toFloat height) (toFloat numChannels)"

definition channelTop :: "float \<Rightarrow> int \<Rightarrow> float" where
  "channelTop channelHeight ch = fmul (toFloat ch) channelHeight"

definition channelMidY :: "float \<Rightarrow> int \<Rightarrow> float" where
  "channelMidY channelHeight ch = fadd (channelTop channelHeight ch) (fdiv channelHeight 2)"

text \<open>A call \<^verbatim>\<open>g.drawLine (x1, y1, x2, y2)\<close>.\<close>

datatype line = Line float float float float

text \<open>
  Lines 144 to 162, one pass of the column loop: the envelope of column \<open>i\<close>, its two
  vertical coordinates, and the line drawn. The unused \<^verbatim>\<open>rectY\<close> and \<^verbatim>\<open>rectH\<close> of lines
  159 and 160 have no effect.
\<close>

definition drawColumn :: "float list \<Rightarrow> int \<Rightarrow> int \<Rightarrow> float \<Rightarrow> float \<Rightarrow> int \<Rightarrow> fault + line" where
  "drawColumn samples width numSamples channelHeight midY i =
     (case envelope samples width numSamples i of
        Inl f \<Rightarrow> Inl f
      | Inr (minVal, maxVal) \<Rightarrow>
          (let y1 = fsub midY (fmul minVal (fdiv channelHeight 2));
               y2 = fsub midY (fmul maxVal (fdiv channelHeight 2))
           in Inr (Line (fadd (toFloat i) (1 / 2)) y1 (fadd (toFloat i) (1 / 2)) y2)))"

text \<open>
  The specification's wording of the line of a column: from \<open>(i + 0.5, y1)\<close> to
  \<open>(i + 0.5, y2)\<close> with \<open>y1 = midY - minVal * channelHeight / 2\<close> and
  \<open>y2 = midY - maxVal * channelHeight / 2\<close>, for the minimum and maximum of the samples
  of the column's sub-range and the seeds.
\<close>

definition columnLine :: "float list \<Rightarrow> int \<Rightarrow> int \<Rightarrow> float \<Rightarrow> float \<Rightarrow> int \<Rightarrow> line" where
  "columnLine samples width numSamples channelHeight midY i =
     (let r = sampleRange width numSamples i;
          minMax = specEnvelope (samplesBetween samples (fst r) (snd r))
      in Line (fadd (toFloat i) (1 / 2)) (fsub midY (fmul (fst minMax) (fdiv channelHeight 2)))
              (fadd (toFloat i) (1 / 2)) (fsub midY (fmul (snd minMax) (fdiv channelHeight 2))))"


text \<open>Line 143: the loop over the columns \<open>i, i + 1, ..., width - 1\<close> of one channel.\<close>

function columnLoop ::
  "float list \<Rightarrow> int \<Rightarrow> int \<Rightarrow> float \<Rightarrow> float \<Rightarrow> int \<Rightarrow> line list \<Rightarrow> fault + line list" where
  "columnLoop samples width numSamples channelHeight midY i drawn =
     (if i < width then
        (case drawColumn samples width numSamples channelHeight midY i of
           Inl f \<Rightarrow> Inl f
         | Inr l \<Rightarrow> columnLoop samples width numSamples channelHeight midY (i + 1) (drawn @ [l]))
      else Inr drawn)"
  by pat_completeness auto
termination
  by (relation "measure (\<lambda>(samples, width, numSamples, channelHeight, midY, i, drawn). nat (width - i))")
    auto

declare columnLoop.simps [simp del]

text \<open>
  Line 137: the loop over the channels \<open>ch, ch + 1, ..., numChannels - 1\<close> of the buffer,
  whose channel \<open>ch\<close> is the list \<open>buffer ! ch\<close>.
\<close>

function channelLoop ::
  "float list list \<Rightarrow> int \<Rightarrow> int \<Rightarrow> float \<Rightarrow> nat \<Rightarrow> line list \<Rightarrow> fault + line list" where
  "channelLoop buffer width numSamples channelHeight ch drawn =
     (if ch < length buffer then
        (case columnLoop (buffer ! ch) width numSamples channelHeight
                (channelMidY channelHeight (int ch)) 0 drawn of
           Inl f \<Rightarrow> Inl f
         | Inr drawn' \<Rightarrow> channelLoop buffer width numSamples channelHeight (ch + 1) drawn')
      else Inr drawn)"
  by pat_completeness auto
termination
  by (relation "measure (\<lambda>(buffer, width, numSamples, channelHeight, ch, drawn).
        length buffer - ch)") auto

declare channelLoop.simps [simp del]

text \<open>
  The image and its graphics context: the size it was created with, the colour of
  \<^verbatim>\<open>fillAll\<close>, the colour set by \<^verbatim>\<open>setColour\<close>, and the lines drawn, in order.
\<close>

datatype Colour = RGBA "8 word" "8 word" "8 word" "8 word"

record Image =
  imageWidth :: int
  imageHeight :: int
  fillColour :: Colour
  lineColour :: Colour
  drawnLines :: "line list"

text \<open>Lines 129 to 164: the image filled with the background, then every channel drawn.\<close>

definition rasterize ::
  "float list list \<Rightarrow> int \<Rightarrow> int \<Rightarrow> int \<Rightarrow> Colour \<Rightarrow> Colour \<Rightarrow> fault + Image" where
  "rasterize buffer numSamples width height bgColor fgColor =
     (let channelHeight = channelHeightOf height (int (length buffer))
      in case channelLoop buffer width numSamples channelHeight 0 [] of
           Inl f \<Rightarrow> Inl f
         | Inr drawn \<Rightarrow>
             Inr \<lparr> imageWidth = width, imageHeight = height, fillColour = bgColor,
                   lineColour = fgColor, drawnLines = drawn \<rparr>)"

text \<open>
  Modelled from the spec: the pixels a drawn line changes. \<^verbatim>\<open>Graphics::drawLine\<close> is
  JUCE's; the specification describes the call as drawing "a 1-pixel-wide vertical line
  segment from \<open>(i+0.5, y1)\<close> to \<open>(i+0.5, y2)\<close> in foregroundColor, overwriting
  background pixels it touches". A vertical segment of width 1 centred on \<open>x\<close> touches
  the pixel in column \<open>px\<close> and row \<open>py\<close> when the strip from \<open>x - 1/2\<close> to \<open>x + 1/2\<close>
  meets the pixel's column and the segment's vertical extent meets the pixel's row,
  each in more than a point. Blending at the ends of a segment is not represented.
\<close>

fun touches :: "line \<Rightarrow> int \<Rightarrow> int \<Rightarrow> bool" where
  "touches (Line x1 y1 x2 y2) px py =
     (x1 = x2 \<and> x1 - 1 / 2 < of_int px + 1 \<and> of_int px < x1 + 1 / 2
      \<and> min y1 y2 < of_int py + 1 \<and> of_int py < max y1 y2)"

definition pixelAt :: "Image \<Rightarrow> int \<Rightarrow> int \<Rightarrow> Colour" where
  "pixelAt img px py =
     (if list_ex (\<lambda>l. touches l px py) (drawnLines img) then lineColour img
      else fillColour img)"

text \<open>
  The specification's wording of a channel's band: the rows from the band's top up to,
  and not including, the top plus the band's height, for the top and the height the
  program computes.
\<close>

definition band :: "int \<Rightarrow> int \<Rightarrow> int \<Rightarrow> float set" where
  "band H C c =
     {y. channelTop (channelHeightOf H C) c \<le> y
         \<and> y < channelTop (channelHeightOf H C) c + channelHeightOf H C}"

section \<open>Time window (Main.cpp, lines 120 to 124)\<close>

record time_window =
  actualStart :: double
  actualEnd :: double
  startSample :: int
  numSamples :: int

definition resolveWindow :: "double \<Rightarrow> double \<Rightarrow> double \<Rightarrow> double \<Rightarrow> time_window" where
  "resolveWindow startTime endTime duration sampleRate =
     (let actualEnd0 = (if endTime \<le> 0 then (if endTime < 0 then dadd duration endTime else duration)
                        else endTime);
          actualEnd1 = jmin duration actualEnd0;
          actualStart1 = jlimit 0 actualEnd1 startTime
      in \<lparr> actualStart = actualStart1,
           actualEnd = actualEnd1,
           startSample = truncToZero (dmul actualStart1 sampleRate),
           numSamples = truncToZero (dmul (dsub actualEnd1 actualStart1) sampleRate) \<rparr>)"

text \<open>
  The specification's wording of the same step: the requested end selects the raw end
  (the sum being the sum of two \<^verbatim>\<open>double\<close>), the raw end is capped by the duration, and
  the start is clamped between 0 and the resulting end.
\<close>

definition specActualEnd :: "double \<Rightarrow> double \<Rightarrow> double" where
  "specActualEnd requestedEnd totalDuration =
     min totalDuration
       (if requestedEnd = 0 then totalDuration
        else if requestedEnd < 0 then dadd totalDuration requestedEnd
        else requestedEnd)"

definition specActualStart :: "double \<Rightarrow> double \<Rightarrow> double \<Rightarrow> double" where
  "specActualStart requestedStart requestedEnd totalDuration =
     clamp requestedStart 0 (specActualEnd requestedEnd totalDuration)"

section \<open>Strings and colours\<close>

text \<open>
  A \<^verbatim>\<open>juce::String\<close> is a sequence of Unicode code points (\<^verbatim>\<open>juce_wchar\<close>, 32 bits);
  \<^verbatim>\<open>length()\<close> counts them. \<open>juceString\<close> embeds an ASCII literal.
\<close>

type_synonym juce_wchar = "32 word"
type_synonym String = "juce_wchar list"

definition juceString :: "string \<Rightarrow> String" where
  "juceString s = map of_char s"

text \<open>
  Modelled from the spec: \<^verbatim>\<open>String::getHexValue32\<close> and the
  \<^verbatim>\<open>CharacterFunctions::getHexDigitValue\<close> it calls are JUCE's and not among the
  sources. A colour component is read as a hexadecimal number: \<open>0-9\<close>, \<open>a-f\<close> and
  \<open>A-F\<close> have the values 0 to 15 and every other character has none (-1); the result
  starts at 0, a character with a value shifts the result left by four bits and enters
  its value, and a character without one is skipped (JUCE: "Non-hexadecimal characters
  in the string are ignored").
\<close>

definition getHexDigitValue :: "juce_wchar \<Rightarrow> int" where
  "getHexDigitValue digit =
     (if 48 \<le> digit \<and> digit \<le> 57 then uint digit - 48
      else if 97 \<le> digit \<and> digit \<le> 102 then uint digit - 97 + 10
      else if 65 \<le> digit \<and> digit \<le> 70 then uint digit - 65 + 10
      else - 1)"

definition getHexValue32 :: "String \<Rightarrow> 32 word" where
  "getHexValue32 text =
     foldl (\<lambda>result c. let hexValue = getHexDigitValue c
                        in if 0 \<le> hexValue then push_bit 4 result OR word_of_int hexValue
                           else result) 0 text"

text \<open>\<^verbatim>\<open>String::substring (start, end)\<close> for \<open>0 \<le> start\<close>.\<close>

definition substring :: "String \<Rightarrow> nat \<Rightarrow> nat \<Rightarrow> String" where
  "substring text start end' = (if end' \<le> start then [] else take (end' - start) (drop start text))"

text \<open>
  \<^verbatim>\<open>Colour::fromRGBA\<close> takes four \<^verbatim>\<open>uint8\<close>; an \<^verbatim>\<open>int\<close> argument is narrowed to its
  low eight bits. \<^verbatim>\<open>Colours::black\<close> is opaque, \<^verbatim>\<open>Colours::transparentBlack\<close> is not.
\<close>

definition fromRGBA :: "32 word \<Rightarrow> 32 word \<Rightarrow> 32 word \<Rightarrow> 32 word \<Rightarrow> Colour" where
  "fromRGBA r g b a = RGBA (ucast r) (ucast g) (ucast b) (ucast a)"

definition black :: Colour where
  "black = RGBA 0 0 0 255"

definition transparentBlack :: Colour where
  "transparentBlack = RGBA 0 0 0 0"

definition white :: Colour where
  "white = RGBA 255 255 255 255"

text \<open>Lines 29 to 38.\<close>

definition parseHexColor :: "String \<Rightarrow> Colour" where
  "parseHexColor hex =
     (if length hex \<noteq> 8 then black
      else fromRGBA (getHexValue32 (substring hex 0 2))
                    (getHexValue32 (substring hex 2 4))
                    (getHexValue32 (substring hex 4 6))
                    (getHexValue32 (substring hex 6 8)))"

text \<open>The specification's wording: the characters \<open>0-9\<close>, \<open>A-F\<close> and \<open>a-f\<close>.\<close>

definition isHexDigit :: "juce_wchar \<Rightarrow> bool" where
  "isHexDigit c = ((48 \<le> c \<and> c \<le> 57) \<or> (65 \<le> c \<and> c \<le> 70) \<or> (97 \<le> c \<and> c \<le> 102))"

text \<open>
  \<^verbatim>\<open>String::trim\<close> removes the whitespace at both ends; the whitespace represented is
  the ASCII one (space, tab, line feed, vertical tab, form feed, carriage return).
\<close>

definition isWhitespace :: "juce_wchar \<Rightarrow> bool" where
  "isWhitespace c = (c = 32 \<or> (9 \<le> c \<and> c \<le> 13))"

definition trim :: "String \<Rightarrow> String" where
  "trim text = rev (dropWhile isWhitespace (rev (dropWhile isWhitespace text)))"

text \<open>
  \<^verbatim>\<open>String::getIntValue\<close>: leading whitespace, an optional minus sign, then decimal
  digits up to the first other character. A value outside the range of \<^verbatim>\<open>int\<close> is not
  represented.
\<close>

definition isDigit :: "juce_wchar \<Rightarrow> bool" where
  "isDigit c = (48 \<le> c \<and> c \<le> 57)"

definition getIntValue :: "String \<Rightarrow> int" where
  "getIntValue text =
     (let s = dropWhile isWhitespace text;
          isNeg = (s \<noteq> [] \<and> hd s = 45);
          v = foldl (\<lambda>v c. v * 10 + uint (c - 48)) 0 (takeWhile isDigit (if isNeg then tl s else s))
      in if isNeg then - v else v)"

section \<open>The program (Main.cpp, lines 40 to 182)\<close>

definition maxImageDimension :: int where
  "maxImageDimension = 16384"

text \<open>The local variables the argument loop fills, with their initial values (lines 50 to 54).\<close>

record options =
  inputFile :: String
  outputFile :: String
  startTime :: double
  endTime :: double
  width :: int
  height :: int
  bgColor :: Colour
  fgColor :: Colour

definition defaultOptions :: options where
  "defaultOptions =
     \<lparr> inputFile = [], outputFile = [], startTime = 0, endTime = 0, width = 1920,
       height = 300, bgColor = transparentBlack, fgColor = white \<rparr>"

text \<open>
  Lines 56 to 78: the loop over \<^verbatim>\<open>argv[1]\<close>, ..., \<^verbatim>\<open>argv[argc - 1]\<close>. \<open>Inl code\<close> is
  \<^verbatim>\<open>printHelp(); return code;\<close>. An option that is the last argument has no value
  (\<^verbatim>\<open>i + 1 < argc\<close> fails), so unless it is \<^verbatim>\<open>--help\<close> it reaches the final
  \<^verbatim>\<open>else\<close>. \<^verbatim>\<open>String::getDoubleValue\<close> is JUCE's and is a parameter.
\<close>

fun parseArgs :: "(String \<Rightarrow> double) \<Rightarrow> String list \<Rightarrow> options \<Rightarrow> int + options" where
  "parseArgs getDoubleValue [] opts = Inr opts"
| "parseArgs getDoubleValue [a] opts = (if trim a = juceString ''--help'' then Inl 0 else Inl 1)"
| "parseArgs getDoubleValue (a # v # rest) opts =
     (let key = trim a in
      if key = juceString ''--help'' then Inl 0
      else if key = juceString ''-i'' then parseArgs getDoubleValue rest (opts\<lparr>inputFile := v\<rparr>)
      else if key = juceString ''-o'' then parseArgs getDoubleValue rest (opts\<lparr>outputFile := v\<rparr>)
      else if key = juceString ''-s'' then
        parseArgs getDoubleValue rest (opts\<lparr>startTime := getDoubleValue v\<rparr>)
      else if key = juceString ''-e'' then
        parseArgs getDoubleValue rest (opts\<lparr>endTime := getDoubleValue v\<rparr>)
      else if key = juceString ''-w'' then parseArgs getDoubleValue rest (opts\<lparr>width := getIntValue v\<rparr>)
      else if key = juceString ''-h'' then parseArgs getDoubleValue rest (opts\<lparr>height := getIntValue v\<rparr>)
      else if key = juceString ''-b'' then
        parseArgs getDoubleValue rest (opts\<lparr>bgColor := parseHexColor v\<rparr>)
      else if key = juceString ''-f'' then
        parseArgs getDoubleValue rest (opts\<lparr>fgColor := parseHexColor v\<rparr>)
      else Inl 1)"

text \<open>
  What the program prints: the help text, the size message of line 88, the parameter
  block of lines 92 to 100, and the messages of lines 105, 115, 175 and 180.
\<close>

datatype message =
  Help | ImageSizeTooLarge | Parameters | InputDoesNotExist | FailedToRead | FailedToSave | Saved

text \<open>
  The decoder's reader: its length, rate and channel count, and the sample of a channel
  at a position of the file. \<^verbatim>\<open>AudioFormatReader::read\<close> fills what lies outside the
  file with zeros.
\<close>

record AudioFormatReader =
  lengthInSamples :: int
  sampleRate :: double
  numChannels :: nat
  sampleAt :: "nat \<Rightarrow> int \<Rightarrow> float"

text \<open>
  Lines 126 and 127: a buffer of \<^verbatim>\<open>(int) numSamples\<close> samples per channel, filled from
  the reader. A negative length is outside \<^verbatim>\<open>AudioBuffer\<close>'s contract.
\<close>

definition readBuffer :: "AudioFormatReader \<Rightarrow> int \<Rightarrow> int \<Rightarrow> fault + float list list" where
  "readBuffer reader first count =
     (let n = int32 count in
      if n < 0 then Inl (NegativeBufferSize n)
      else Inr (map (\<lambda>ch. map (\<lambda>j. let p = first + int j
                                   in if 0 \<le> p \<and> p < lengthInSamples reader
                                      then sampleAt reader ch p else 0)
                              [0..<nat n])
                    [0..<numChannels reader]))"

text \<open>
  What the program meets outside itself: whether the input path is a file, the reader
  the format manager creates for it (if any), the bytes of a file already at the output
  path (if any), whether \<^verbatim>\<open>deleteFile\<close> removes it, and what the PNG encoder does with
  an image: whether it succeeds, and the bytes it wrote to the stream.
\<close>

record environment =
  existsAsFile :: "String \<Rightarrow> bool"
  createReaderFor :: "String \<Rightarrow> AudioFormatReader option"
  outputBefore :: "nat list option"
  deleteSucceeds :: bool
  writeImageToStream :: "Image \<Rightarrow> bool \<times> nat list"

text \<open>
  A finished run: the value \<^verbatim>\<open>wmain\<close> returns, what it printed, the bytes at the
  output path afterwards, and the image it rendered (if it got that far).
\<close>

record run =
  exitCode :: int
  printed :: "message list"
  outputAfter :: "nat list option"
  rendered :: "Image option"

definition stop :: "int \<Rightarrow> message list \<Rightarrow> environment \<Rightarrow> run" where
  "stop code msgs env =
     \<lparr> exitCode = code, printed = msgs, outputAfter = outputBefore env, rendered = None \<rparr>"

text \<open>
  Lines 166 to 181. An existing output file is deleted first (the result of
  \<^verbatim>\<open>deleteFile\<close> is not looked at); the \<^verbatim>\<open>FileOutputStream\<close> then opens the path,
  creating the file or appending to what is still there; the encoder writes to it.
\<close>

definition saveImage :: "Image \<Rightarrow> environment \<Rightarrow> run" where
  "saveImage img env =
     (let afterDelete = (if outputBefore env \<noteq> None \<and> deleteSucceeds env then None
                         else outputBefore env);
          opened = (case afterDelete of None \<Rightarrow> [] | Some old \<Rightarrow> old);
          written = writeImageToStream env img
      in if \<not> fst written
         then \<lparr> exitCode = 1, printed = [Parameters, FailedToSave],
                outputAfter = Some (opened @ snd written), rendered = Some img \<rparr>
         else \<lparr> exitCode = 0, printed = [Parameters, Saved],
                outputAfter = Some (opened @ snd written), rendered = Some img \<rparr>)"

text \<open>Lines 119 to 181: from the reader to the saved image.\<close>

definition renderAndSave :: "options \<Rightarrow> AudioFormatReader \<Rightarrow> environment \<Rightarrow> fault + run" where
  "renderAndSave opts reader env =
     (let duration = ddiv (toDouble (lengthInSamples reader)) (sampleRate reader);
          window = resolveWindow (startTime opts) (endTime opts) duration (sampleRate reader)
      in case readBuffer reader (startSample window) (numSamples window) of
           Inl f \<Rightarrow> Inl f
         | Inr buffer \<Rightarrow>
             (case rasterize buffer (numSamples window) (width opts) (height opts)
                     (bgColor opts) (fgColor opts) of
                Inl f \<Rightarrow> Inl f
              | Inr img \<Rightarrow> Inr (saveImage img env)))"

text \<open>
  \<^verbatim>\<open>wmain\<close>, given \<^verbatim>\<open>argv[1]\<close>, ..., \<^verbatim>\<open>argv[argc - 1]\<close> as \<open>args\<close>
  (\<^verbatim>\<open>argc < 2\<close> is \<open>args = []\<close>).
\<close>

definition wmain :: "(String \<Rightarrow> double) \<Rightarrow> String list \<Rightarrow> environment \<Rightarrow> fault + run" where
  "wmain getDoubleValue args env =
     (if args = [] then Inr (stop 1 [Help] env)
      else case parseArgs getDoubleValue args defaultOptions of
        Inl code \<Rightarrow> Inr (stop code [Help] env)
      | Inr opts \<Rightarrow>
          if inputFile opts = [] \<or> outputFile opts = [] then Inr (stop 1 [Help] env)
          else if width opts > maxImageDimension \<or> height opts > maxImageDimension
          then Inr (stop 1 [ImageSizeTooLarge] env)
          else if \<not> existsAsFile env (inputFile opts)
          then Inr (stop 1 [Parameters, InputDoesNotExist] env)
          else (case createReaderFor env (inputFile opts) of
                  None \<Rightarrow> Inr (stop 1 [Parameters, FailedToRead] env)
                | Some reader \<Rightarrow> renderAndSave opts reader env))"

section \<open>Example inputs\<close>

text \<open>
  A one-channel reader over the samples \<open>xs\<close>, and an environment in which the input
  exists and decodes to \<open>reader\<close>, the output path holds \<open>old\<close>, deleting succeeds,
  and the encoder returns \<open>ok\<close> after writing \<open>bytes\<close>; and a stand-in for
  \<^verbatim>\<open>getDoubleValue\<close> in runs that pass neither \<^verbatim>\<open>-s\<close> nor \<^verbatim>\<open>-e\<close>. They are the
  concrete inputs of the evaluations below.
\<close>

definition zeroDoubleValue :: "String \<Rightarrow> double" where
  "zeroDoubleValue text = 0"

definition monoReader :: "float list \<Rightarrow> double \<Rightarrow> AudioFormatReader" where
  "monoReader xs rate =
     \<lparr> lengthInSamples = int (length xs), sampleRate = rate, numChannels = 1,
       sampleAt = (\<lambda>ch p. xs ! nat p) \<rparr>"

definition exampleEnv :: "AudioFormatReader \<Rightarrow> nat list option \<Rightarrow> bool \<Rightarrow> nat list \<Rightarrow> environment" where
  "exampleEnv reader old ok bytes =
     \<lparr> existsAsFile = (\<lambda>p. True), createReaderFor = (\<lambda>p. Some reader), outputBefore = old,
       deleteSucceeds = True, writeImageToStream = (\<lambda>img. (ok, bytes)) \<rparr>"

section \<open>Properties of rounding\<close>

text \<open>
  Rounding keeps what the format represents, and stays on the same side of it: a value
  \<open>n * pow2 k\<close> with \<open>|n|\<close> below \<open>2 ^ p\<close> and \<open>k\<close> not below the least quantum
  exponent is its own rounding, and a value above (below) it rounds to a value not below
  (not above) it.
\<close>

lemma pow2_pos: "0 < pow2 e"
  by (simp add: pow2_def)

lemma pow2_powi: "pow2 e = 2 powi e"
  by (simp add: pow2_def power_int_def field_simps)

lemma pow2_add: "pow2 (a + b) = pow2 a * pow2 b"
  by (simp add: pow2_powi power_int_add)

lemma pow2_mono: "a \<le> b \<Longrightarrow> pow2 a \<le> pow2 b"
  by (simp add: pow2_powi power_int_increasing)

lemma pow2_nat: "0 \<le> e \<Longrightarrow> pow2 e = of_int (2 ^ nat e)"
  by (simp add: pow2_def)

lemma bitlen_pos: "0 < n \<Longrightarrow> 0 < bitlen n"
proof (rule ccontr)
  assume n: "0 < n" and "\<not> 0 < bitlen n"
  then have "nat (bitlen n) = 0" by simp
  with bitlen_bounds[OF n] show False by auto
qed

lemma ilog2_le:
  assumes "0 < x"
  shows "pow2 (ilog2 x) \<le> x"
proof (cases "1 \<le> x")
  case True
  then have f: "0 < \<lfloor>x\<rfloor>" by simp
  from bitlen_bounds[OF f] have "(2::int) ^ nat (bitlen \<lfloor>x\<rfloor> - 1) \<le> \<lfloor>x\<rfloor>" by simp
  then have "(of_int ((2::int) ^ nat (bitlen \<lfloor>x\<rfloor> - 1)) :: rat) \<le> of_int \<lfloor>x\<rfloor>"
    by (simp only: of_int_le_iff)
  also have "\<dots> \<le> x" by simp
  finally have "(2::rat) ^ nat (bitlen \<lfloor>x\<rfloor> - 1) \<le> x" by simp
  moreover have "0 \<le> bitlen \<lfloor>x\<rfloor> - 1" using bitlen_pos[OF f] by simp
  ultimately show ?thesis using True by (simp add: ilog2_def pow2_def)
next
  case False
  define c where "c = \<lceil>1 / x\<rceil> - 1"
  have "1 < 1 / x" using False assms by simp
  then have "1 < \<lceil>1 / x\<rceil>" by (simp add: less_ceiling_iff)
  then have c: "0 < c" by (simp add: c_def)
  from bitlen_bounds[OF c] have "c < 2 ^ nat (bitlen c)" by simp
  then have "c + 1 \<le> 2 ^ nat (bitlen c)" by simp
  then have "(of_int (c + 1) :: rat) \<le> of_int (2 ^ nat (bitlen c))" by (simp only: of_int_le_iff)
  moreover have "1 / x \<le> of_int (c + 1)" by (simp add: c_def)
  ultimately have "1 / x \<le> 2 ^ nat (bitlen c)" by simp
  then have "1 \<le> 2 ^ nat (bitlen c) * x" using assms by (simp add: pos_divide_le_eq)
  then have le: "1 / 2 ^ nat (bitlen c) \<le> x" by (simp add: pos_divide_le_eq mult.commute)
  have b: "0 < bitlen c" using c by (rule bitlen_pos)
  show ?thesis using False le b by (simp add: ilog2_def pow2_def c_def)
qed

lemma ilog2_less:
  assumes "0 < x" "x < pow2 m"
  shows "ilog2 x < m"
proof (rule ccontr)
  assume "\<not> ilog2 x < m"
  then have "pow2 m \<le> pow2 (ilog2 x)" by (simp add: pow2_mono)
  also have "\<dots> \<le> x" using assms(1) by (rule ilog2_le)
  finally show False using assms(2) by simp
qed

lemma roundHalfEven_of_int: "roundHalfEven (of_int m) = m"
  by (simp add: roundHalfEven_def)

lemma roundHalfEven_nonneg: "0 \<le> y \<Longrightarrow> 0 \<le> roundHalfEven y"
  by (simp add: roundHalfEven_def Let_def)

lemma roundHalfEven_ge_floor: "\<lfloor>y\<rfloor> \<le> roundHalfEven y"
  by (simp add: roundHalfEven_def Let_def)

lemma roundHalfEven_lower: "of_int m \<le> y \<Longrightarrow> m \<le> roundHalfEven y"
proof -
  assume "of_int m \<le> y"
  then have "m \<le> \<lfloor>y\<rfloor>" by (simp add: le_floor_iff)
  then show ?thesis using roundHalfEven_ge_floor[of y] by simp
qed

lemma roundHalfEven_minus: "roundHalfEven (- y) = - roundHalfEven y"
proof (cases "y = of_int \<lfloor>y\<rfloor>")
  case True
  then obtain m where "y = of_int m" ..
  then show ?thesis using roundHalfEven_of_int[of m] roundHalfEven_of_int[of "- m"] by simp
next
  case False
  then have c: "\<lceil>y\<rceil> = \<lfloor>y\<rfloor> + 1" by (simp add: ceiling_altdef)
  have f: "\<lfloor>- y\<rfloor> = - \<lfloor>y\<rfloor> - 1" using c by (simp add: ceiling_def)
  show ?thesis unfolding roundHalfEven_def Let_def f by (auto simp: field_simps)
qed

lemma roundTo_minus: "roundTo p emin (- x) = - roundTo p emin x"
  by (simp add: roundTo_def Let_def roundHalfEven_minus)

lemma roundTo_nonneg: "0 \<le> x \<Longrightarrow> 0 \<le> roundTo p emin x"
proof (cases "x = 0")
  case True
  then show ?thesis by (simp add: roundTo_def)
next
  case False
  assume "0 \<le> x"
  then have "0 \<le> x / pow2 e" for e using pow2_pos[of e] by simp
  then have "0 \<le> roundHalfEven (x / pow2 e)" for e by (rule roundHalfEven_nonneg)
  then show ?thesis using False pow2_pos
    by (simp add: roundTo_def Let_def less_imp_le)
qed

text \<open>The quantum of a value of at most \<open>p\<close> significant bits over \<open>pow2 k\<close> is at most \<open>pow2 k\<close>.\<close>

lemma significand_bound:
  assumes "\<bar>n\<bar> < 2 ^ p"
  shows "\<bar>of_int n * pow2 k\<bar> < pow2 (int p + k)"
proof -
  have pk: "0 < pow2 k" by (rule pow2_pos)
  have "\<bar>of_int n * pow2 k\<bar> = of_int \<bar>n\<bar> * pow2 k" using pk by (simp add: abs_mult)
  moreover have "(of_int \<bar>n\<bar> :: rat) < of_int (2 ^ p)" using assms by (simp only: of_int_less_iff)
  then have "of_int \<bar>n\<bar> * pow2 k < pow2 (int p) * pow2 k" using pk by (simp add: pow2_def)
  ultimately show ?thesis by (simp add: pow2_add)
qed

lemma quantum_le:
  assumes "\<bar>n\<bar> < 2 ^ p" "emin \<le> k" "n \<noteq> 0"
  shows "max (ilog2 \<bar>of_int n * pow2 k\<bar> - (int p - 1)) emin \<le> k"
proof -
  have "\<bar>of_int n * pow2 k\<bar> < pow2 (int p + k)" using assms(1) by (rule significand_bound)
  moreover have "0 < \<bar>of_int n * pow2 k\<bar>" using assms(3) pow2_pos[of k] by simp
  ultimately have "ilog2 \<bar>of_int n * pow2 k\<bar> < int p + k" by (rule ilog2_less[rotated])
  then show ?thesis using assms(2) by simp
qed

lemma scaled_integer:
  assumes "e \<le> k"
  shows "of_int n * pow2 k / pow2 e = of_int (n * 2 ^ nat (k - e))"
proof -
  have "pow2 k = pow2 (k - e) * pow2 e" by (simp flip: pow2_add)
  moreover have "pow2 (k - e) = of_int (2 ^ nat (k - e))" using assms by (simp add: pow2_nat)
  ultimately show ?thesis using pow2_pos[of e] by simp
qed

lemma roundTo_representable:
  assumes "\<bar>n\<bar> < 2 ^ p" "emin \<le> k"
  shows "roundTo p emin (of_int n * pow2 k) = of_int n * pow2 k"
proof (cases "n = 0")
  case True
  then show ?thesis by (simp add: roundTo_def)
next
  case False
  define e where "e = max (ilog2 \<bar>of_int n * pow2 k\<bar> - (int p - 1)) emin"
  have ek: "e \<le> k" unfolding e_def using assms False by (rule quantum_le)
  have "roundHalfEven (of_int n * pow2 k / pow2 e) = n * 2 ^ nat (k - e)"
    by (simp only: scaled_integer[OF ek] roundHalfEven_of_int)
  then have "of_int (roundHalfEven (of_int n * pow2 k / pow2 e)) * pow2 e = of_int n * pow2 k / pow2 e * pow2 e"
    by (simp only: scaled_integer[OF ek])
  also have "\<dots> = of_int n * pow2 k" using pow2_pos[of e] by simp
  finally show ?thesis using False pow2_pos[of k] by (simp add: roundTo_def Let_def e_def)
qed

lemma roundTo_lower:
  assumes "\<bar>n\<bar> < 2 ^ p" "emin \<le> k" "0 < p" "of_int n * pow2 k \<le> x"
  shows "of_int n * pow2 k \<le> roundTo p emin x"
proof (cases "x = 0")
  case True
  then show ?thesis using assms(4) by (simp add: roundTo_def)
next
  case False
  define e where "e = max (ilog2 \<bar>x\<bar> - (int p - 1)) emin"
  have r: "roundTo p emin x = of_int (roundHalfEven (x / pow2 e)) * pow2 e"
    using False by (simp add: roundTo_def Let_def e_def)
  have pe: "0 < pow2 e" by (rule pow2_pos)
  show ?thesis
  proof (cases "e \<le> k")
    case True
    have "of_int (n * 2 ^ nat (k - e)) \<le> x / pow2 e"
      using assms(4) pe by (simp only: flip: scaled_integer[OF True]) (simp add: divide_right_mono)
    then have "n * 2 ^ nat (k - e) \<le> roundHalfEven (x / pow2 e)" by (rule roundHalfEven_lower)
    then have "(of_int (n * 2 ^ nat (k - e)) :: rat) \<le> of_int (roundHalfEven (x / pow2 e))"
      by (simp only: of_int_le_iff)
    then have "of_int (n * 2 ^ nat (k - e)) * pow2 e \<le> of_int (roundHalfEven (x / pow2 e)) * pow2 e"
      using pe by (simp only: mult_le_cancel_right_pos)
    moreover have "of_int (n * 2 ^ nat (k - e)) * pow2 e = of_int n * pow2 k"
      using pe by (simp only: flip: scaled_integer[OF True]) simp
    ultimately show ?thesis by (simp only: r)
  next
    case False
    then have ee: "e = ilog2 \<bar>x\<bar> - (int p - 1)" using assms(2) by (simp add: e_def max_def split: if_splits)
    have xp: "0 < \<bar>x\<bar>" using \<open>x \<noteq> 0\<close> by simp
    have "\<bar>of_int n * pow2 k\<bar> < pow2 (int p + k)" using assms(1) by (rule significand_bound)
    also have "\<dots> \<le> pow2 (ilog2 \<bar>x\<bar>)" using False ee by (simp add: pow2_mono)
    finally have small: "\<bar>of_int n * pow2 k\<bar> < pow2 (ilog2 \<bar>x\<bar>)" .
    have le: "pow2 (ilog2 \<bar>x\<bar>) \<le> \<bar>x\<bar>" using xp by (rule ilog2_le)
    show ?thesis
    proof (cases "0 < x")
      case True
      have "pow2 (ilog2 \<bar>x\<bar>) = pow2 (int p - 1) * pow2 e" by (simp add: ee flip: pow2_add)
      moreover have "pow2 (int p - 1) = of_int (2 ^ nat (int p - 1))" using assms(3) by (simp add: pow2_nat)
      ultimately have sc: "pow2 (ilog2 \<bar>x\<bar>) = of_int (2 ^ nat (int p - 1)) * pow2 e" by simp
      have "of_int (2 ^ nat (int p - 1)) * pow2 e \<le> \<bar>x\<bar>" using le by (simp only: sc)
      then have "of_int (2 ^ nat (int p - 1)) * pow2 e \<le> x" using True by simp
      then have "of_int (2 ^ nat (int p - 1)) \<le> x / pow2 e" using pe by (simp add: pos_le_divide_eq)
      then have "2 ^ nat (int p - 1) \<le> roundHalfEven (x / pow2 e)" by (rule roundHalfEven_lower)
      then have "(of_int (2 ^ nat (int p - 1)) :: rat) \<le> of_int (roundHalfEven (x / pow2 e))"
        by (simp only: of_int_le_iff)
      then have "of_int (2 ^ nat (int p - 1)) * pow2 e \<le> of_int (roundHalfEven (x / pow2 e)) * pow2 e"
        using pe by (simp only: mult_le_cancel_right_pos)
      then have "pow2 (ilog2 \<bar>x\<bar>) \<le> roundTo p emin x" by (simp only: r sc)
      then show ?thesis using small by simp
    next
      case False
      then have "x < 0" using \<open>x \<noteq> 0\<close> by simp
      then have "\<bar>x\<bar> \<le> \<bar>of_int n * pow2 k\<bar>" using assms(4) by simp
      then show ?thesis using small le by simp
    qed
  qed
qed

lemma roundTo_upper:
  assumes "\<bar>n\<bar> < 2 ^ p" "emin \<le> k" "0 < p" "x \<le> of_int n * pow2 k"
  shows "roundTo p emin x \<le> of_int n * pow2 k"
proof -
  have "of_int (- n) * pow2 k \<le> roundTo p emin (- x)"
    by (rule roundTo_lower) (use assms in simp_all)
  then show ?thesis by (simp add: roundTo_minus)
qed

text \<open>The two formats: integers and half-integers of up to 53 and 24 bits.\<close>

lemma fl64_of_int: "\<bar>n\<bar> < 2 ^ 53 \<Longrightarrow> fl64 (of_int n) = of_int n"
  using roundTo_representable[of n 53 "- 1074" 0] by (simp add: fl64_def pow2_def)


lemma fl64_nonneg: "0 \<le> x \<Longrightarrow> 0 \<le> fl64 x"
  unfolding fl64_def by (rule roundTo_nonneg)








lemma fl64_lower_int: "\<bar>n\<bar> < 2 ^ 53 \<Longrightarrow> of_int n \<le> x \<Longrightarrow> of_int n \<le> fl64 x"
  using roundTo_lower[of n 53 "- 1074" 0 x] by (simp add: fl64_def pow2_def)

lemma fl64_upper_int: "\<bar>n\<bar> < 2 ^ 53 \<Longrightarrow> x \<le> of_int n \<Longrightarrow> fl64 x \<le> of_int n"
  using roundTo_upper[of n 53 "- 1074" 0 x] by (simp add: fl64_def pow2_def)

section \<open>Properties of the time window\<close>

lemma jmin_eq_min: "jmin a b = min a b"
  by (auto simp: jmin_def min_def)

text \<open>
  C2. For every requested start, requested end and total duration, the resolver's end is
  the duration when the requested end is 0, duration plus requested end when it is
  negative and the requested end otherwise, then capped by the duration; its start is
  the requested start clamped between 0 and that end. With duration 100 and start 5,
  the ends 30, 0 and -10 give the windows (5, 30), (5, 100) and (5, 90).
\<close>

theorem C2_window_resolution:
  "actualEnd (resolveWindow s e d r) = specActualEnd e d
   \<and> actualStart (resolveWindow s e d r) = specActualStart s e d
   \<and> (actualStart (resolveWindow 5 30 100 r), actualEnd (resolveWindow 5 30 100 r)) = (5, 30)
   \<and> (actualStart (resolveWindow 5 0 100 r), actualEnd (resolveWindow 5 0 100 r)) = (5, 100)
   \<and> (actualStart (resolveWindow 5 (-10) 100 r), actualEnd (resolveWindow 5 (-10) 100 r)) = (5, 90)"
proof -
  have d: "dadd 100 (- 10) = 90"
    using fl64_of_int[of 90] by (simp add: dadd_def)
  show ?thesis
    by (simp add: resolveWindow_def specActualEnd_def specActualStart_def clamp_def
        jmin_eq_min jlimit_def Let_def d)
qed

section \<open>Properties of the rasterizer\<close>

lemma int32_id: "- (2^31) \<le> n \<Longrightarrow> n < 2^31 \<Longrightarrow> int32 n = n"
  unfolding int32_def by (simp add: int_word_sint)

lemma truncToZero_nonneg: "0 \<le> x \<Longrightarrow> truncToZero x = \<lfloor>x\<rfloor>"
  by (simp add: truncToZero_def)



lemma samplesBetween_step:
  "j < e \<Longrightarrow> samplesBetween samples j e = samples ! nat j # samplesBetween samples (j + 1) e"
  by (simp add: samplesBetween_def upto_rec1)

lemma samplesBetween_empty: "\<not> j < e \<Longrightarrow> samplesBetween samples j e = []"
  by (simp add: samplesBetween_def)

lemma scan_min_max_pair:
  "0 \<le> j \<Longrightarrow> e \<le> int (length samples) \<Longrightarrow>
   scan samples j e m =
     Inr (Min (insert (fst m) (set (samplesBetween samples j e))),
          Max (insert (snd m) (set (samplesBetween samples j e))))"
proof (induction samples j e m rule: scan.induct)
  case (1 samples j sampleEnd minVal maxVal)
  show ?case
  proof (cases "j < sampleEnd")
    case False
    then show ?thesis
      by (simp add: scan.simps[of samples j sampleEnd] samplesBetween_empty)
  next
    case True
    let ?s = "samples ! nat j"
    let ?rest = "set (samplesBetween samples (j + 1) sampleEnd)"
    have inb: "0 \<le> j \<and> j < int (length samples)" using True "1.prems" by simp
    have ih: "scan samples (j + 1) sampleEnd (if ?s < minVal then ?s else minVal, if ?s > maxVal then ?s else maxVal)
        = Inr (Min (insert (if ?s < minVal then ?s else minVal) ?rest),
               Max (insert (if ?s > maxVal then ?s else maxVal) ?rest))"
      using "1.IH"[OF True inb refl] "1.prems" inb by simp
    have mn: "Min (insert (if ?s < minVal then ?s else minVal) ?rest) = Min (insert minVal (insert ?s ?rest))"
      by (cases "?rest = {}") (auto simp: min_def)
    have mx: "Max (insert (if ?s > maxVal then ?s else maxVal) ?rest) = Max (insert maxVal (insert ?s ?rest))"
      by (cases "?rest = {}") (auto simp: max_def)
    show ?thesis
      using True inb ih mn mx
      by (simp add: scan.simps[of samples j sampleEnd] samplesBetween_step Let_def)
  qed
qed

lemma scan_min_max:
  "0 \<le> j \<Longrightarrow> e \<le> int (length samples) \<Longrightarrow>
   scan samples j e (mn, mx) =
     Inr (Min (insert mn (set (samplesBetween samples j e))),
          Max (insert mx (set (samplesBetween samples j e))))"
  using scan_min_max_pair[of j e samples "(mn, mx)"] by simp

text \<open>
  Whatever the two products of lines 144 and 145 come to, the clamps of lines 146 and
  147 keep the scan of a non-empty channel inside the buffer, and the scan returns the
  minimum and maximum of the sub-range with the seeds. This part does not depend on the
  arithmetic of the products, rounded or not.
\<close>

lemma scan_of_clamped_range:
  assumes "0 < N" "int (length samples) = N"
  shows "scan samples (jlimit 0 (N - 1) x) (jlimit 0 N y) (1, - 1) =
           Inr (specEnvelope (samplesBetween samples (jlimit 0 (N - 1) x) (jlimit 0 N y)))"
proof -
  have "0 \<le> jlimit 0 (N - 1) x" "jlimit 0 N y \<le> int (length samples)"
    using assms by (simp_all add: jlimit_def)
  then show ?thesis by (simp add: scan_min_max specEnvelope_def)
qed

text \<open>
  So for a channel of \<open>N > 0\<close> samples the column loop reads no sample outside the
  buffer, and the line it draws for a column is the line of the minimum and maximum of
  the column's sub-range; the loops over the columns and over the channels draw these
  lines in order, each channel around its own centre.
\<close>

lemma envelope_eq:
  assumes "0 < N" "N < 2 ^ 31" "int (length samples) = N"
  shows "envelope samples W N i =
           Inr (specEnvelope (samplesBetween samples (fst (sampleRange W N i)) (snd (sampleRange W N i))))"
proof -
  have n32: "int32 N = N" using assms by (simp add: int32_id)
  show ?thesis
    unfolding envelope_def sampleRange_def Let_def n32
    using scan_of_clamped_range[OF assms(1,3)] by simp
qed

lemma drawColumn_eq:
  assumes "0 < N" "N < 2 ^ 31" "int (length samples) = N"
  shows "drawColumn samples W N h midY i = Inr (columnLine samples W N h midY i)"
  unfolding drawColumn_def columnLine_def envelope_eq[OF assms]
  by (simp add: Let_def split: prod.splits)

lemma columnLoop_eq:
  assumes "0 < N" "N < 2 ^ 31" "int (length samples) = N"
  shows "columnLoop samples W N h midY i drawn =
           Inr (drawn @ map (columnLine samples W N h midY) [i..W - 1])"
  using assms
proof (induction samples W N h midY i drawn rule: columnLoop.induct)
  case (1 samples width numSamples channelHeight midY i drawn)
  show ?case
  proof (cases "i < width")
    case False
    then show ?thesis
      by (simp add: columnLoop.simps[of samples width numSamples channelHeight midY i drawn])
  next
    case True
    have d: "drawColumn samples width numSamples channelHeight midY i
               = Inr (columnLine samples width numSamples channelHeight midY i)"
      using "1.prems" by (rule drawColumn_eq)
    have u: "[i..width - 1] = i # [i + 1..width - 1]" using True by (simp add: upto_rec1)
    show ?thesis
      using True "1.IH"[OF True d "1.prems"]
      by (simp add: columnLoop.simps[of samples width numSamples channelHeight midY i drawn] d u)
  qed
qed

lemma channelLoop_eq:
  assumes "0 < N" "N < 2 ^ 31" "\<forall>c < length buffer. int (length (buffer ! c)) = N"
  shows "channelLoop buffer W N h ch drawn =
           Inr (drawn @ concat (map (\<lambda>c. map (columnLine (buffer ! c) W N h (channelMidY h (int c))) [0..W - 1])
                                  [ch..<length buffer]))"
  using assms
proof (induction buffer W N h ch drawn rule: channelLoop.induct)
  case (1 buffer width numSamples channelHeight ch drawn)
  show ?case
  proof (cases "ch < length buffer")
    case False
    then show ?thesis
      by (simp add: channelLoop.simps[of buffer width numSamples channelHeight ch drawn])
  next
    case True
    have len: "int (length (buffer ! ch)) = numSamples" using True "1.prems" by simp
    have c: "columnLoop (buffer ! ch) width numSamples channelHeight (channelMidY channelHeight (int ch)) 0 drawn
               = Inr (drawn @ map (columnLine (buffer ! ch) width numSamples channelHeight
                                     (channelMidY channelHeight (int ch))) [0..width - 1])"
      using "1.prems"(1,2) len by (rule columnLoop_eq)
    have u: "[ch..<length buffer] = ch # [ch + 1..<length buffer]" using True by (simp add: upt_rec)
    show ?thesis
      using True "1.IH"[OF True c "1.prems"]
      by (simp add: channelLoop.simps[of buffer width numSamples channelHeight ch drawn] c u)
  qed
qed

lemma rasterize_eq:
  assumes "0 < N" "N < 2 ^ 31" "\<forall>c < length buffer. int (length (buffer ! c)) = N"
  shows "rasterize buffer N W H bg fg =
           Inr \<lparr> imageWidth = W, imageHeight = H, fillColour = bg, lineColour = fg,
                 drawnLines = concat (map (\<lambda>c. map (columnLine (buffer ! c) W N
                                                    (channelHeightOf H (int (length buffer)))
                                                    (channelMidY (channelHeightOf H (int (length buffer))) (int c)))
                                               [0..W - 1])
                                      [0..<length buffer]) \<rparr>"
  unfolding rasterize_def Let_def channelLoop_eq[OF assms] by simp






text \<open>
  C1 as stated fails: on a canvas 22 wide over 22 samples, the exact
  \<open>floor (15 / 22 * 22)\<close> is 15 and column 14 would hold sample 14, but the rounded
  quotient times 22 rounds to a \<^verbatim>\<open>double\<close> just below 15, so the program gives
  column 14 the empty sub-range from 14 to 14. On 22 samples of silence the envelope of
  the column is then the pair of seeds and not \<open>(0, 0)\<close>, and the line drawn for it
  covers the height of the band.
\<close>

theorem C1_rounded_column_counterexample:
  "specSampleRange 22 22 14 = (14, 15)
   \<and> sampleRange 22 22 14 = (14, 14)
   \<and> specEnvelope (samplesBetween (replicate 22 0) 14 15) = (0, 0)
   \<and> envelope (replicate 22 0) 22 22 14 = Inr (1, - 1)
   \<and> drawColumn (replicate 22 0) 22 22 2 1 14 = Inr (Line (29/2) 0 (29/2) 2)"
  by code_simp

text \<open>
  C3, at a failing input. One channel holding the single sample 0.5 is drawn on a canvas
  2 wide and 2 high. Column 0 maps to the empty sub-range \<open>[0, 0)\<close>; its envelope is
  the pair of seeds \<open>(1, -1)\<close>, and line 162 draws from them a line over the whole
  height of the band, so the pixels of column 0 take the foreground colour.
\<close>

theorem C3_empty_column_is_drawn:
  "sampleRange 2 1 0 = (0, 0)
   \<and> envelope [1/2] 2 1 0 = Inr (1, - 1)
   \<and> drawColumn [1/2] 2 1 2 1 0 = Inr (Line (1/2) 0 (1/2) 2)
   \<and> rasterize [[1/2]] 1 2 2 black white =
       Inr \<lparr> imageWidth = 2, imageHeight = 2, fillColour = black, lineColour = white,
             drawnLines = [Line (1/2) 0 (1/2) 2, Line (3/2) (1/2) (3/2) (1/2)] \<rparr>
   \<and> pixelAt \<lparr> imageWidth = 2, imageHeight = 2, fillColour = black, lineColour = white,
             drawnLines = [Line (1/2) 0 (1/2) 2, Line (3/2) (1/2) (3/2) (1/2)] \<rparr> 0 0 = white
   \<and> pixelAt \<lparr> imageWidth = 2, imageHeight = 2, fillColour = black, lineColour = white,
             drawnLines = [Line (1/2) 0 (1/2) 2, Line (3/2) (1/2) (3/2) (1/2)] \<rparr> 0 1 = white
   \<and> white \<noteq> black"
  by code_simp

text \<open>
  C4, at a failing input. With no samples selected (\<open>N = 0\<close>) the upper limit of the
  start's clamp is \<open>N - 1 = -1\<close>, below the lower limit 0, so \<^verbatim>\<open>jlimit\<close> returns -1 for
  the start and 0 for the end, and the scan reads \<^verbatim>\<open>samples[-1]\<close>. The same happens in
  the whole program on an audio file of length zero.
\<close>

theorem C4_empty_range_reads_out_of_bounds:
  "sampleRange 1 0 0 = (- 1, 0)
   \<and> envelope [] 1 0 0 = Inl (SampleIndexOutOfRange (- 1))
   \<and> rasterize [[]] 0 1 1 black white = Inl (SampleIndexOutOfRange (- 1))
   \<and> wmain zeroDoubleValue
        (map juceString [''-i'', ''a.wav'', ''-o'', ''b.png'', ''-w'', ''1'', ''-h'', ''1''])
        (exampleEnv (monoReader [] 44100) None True [0])
       = Inl (SampleIndexOutOfRange (- 1))"
  by code_simp

section \<open>Sample positions of the time window\<close>

text \<open>
  C6, at a failing input. On 100 seconds of audio at 44100 Hz, the requested end -200
  gives the end \<open>100 + (-200) = -100\<close>, which the cap by the duration leaves negative.
  The start 0 is then clamped to the upper limit -100 and the first sample is negative;
  the start -5 is clamped to 0 and the sample count is negative.
\<close>

theorem C6_negative_sample_range:
  "startSample (resolveWindow 0 (- 200) 100 44100) = - 4410000
   \<and> numSamples (resolveWindow (- 5) (- 200) 100 44100) = - 4410000"
  by code_simp

section \<open>Channel bands\<close>














text \<open>
  C5 as stated fails: with \<open>H = 300\<close> and \<open>C = 7\<close> the height of a band is the
  \<^verbatim>\<open>float\<close> nearest to \<open>300 / 7\<close>, the top of band 3 is the rounded triple of it and
  lies below the end of band 2, so the two bands share rows; and on seven channels
  holding the sample 1, the line of channel 1 is drawn above the top of its band.
\<close>

theorem C5_rounded_bands_counterexample:
  "channelHeightOf 300 7 = 11234743 / 262144
   \<and> channelHeightOf 300 7 \<noteq> 300 / 7
   \<and> channelTop (channelHeightOf 300 7) 3
       < channelTop (channelHeightOf 300 7) 2 + channelHeightOf 300 7
   \<and> band 300 7 2 \<inter> band 300 7 3 \<noteq> {}
   \<and> rasterize (replicate 7 [1]) 1 1 300 black white =
       Inr \<lparr> imageWidth = 1, imageHeight = 300, fillColour = black, lineColour = white,
             drawnLines =
               [Line (1/2) 0 (1/2) 0,
                Line (1/2) (5617371 / 131072) (1/2) (5617371 / 131072),
                Line (1/2) (11234743 / 131072) (1/2) (11234743 / 131072),
                Line (1/2) (8426057 / 65536) (1/2) (8426057 / 65536),
                Line (1/2) (11234743 / 65536) (1/2) (11234743 / 65536),
                Line (1/2) (14043429 / 65536) (1/2) (14043429 / 65536),
                Line (1/2) (8426057 / 32768) (1/2) (8426057 / 32768)] \<rparr>
   \<and> 5617371 / 131072 < channelTop (channelHeightOf 300 7) 1
   \<and> 5617371 / 131072 \<notin> band 300 7 1"
proof -
  have v: "channelHeightOf 300 7 = 11234743 / 262144"
    "channelTop (11234743 / 262144) 1 = 11234743 / 262144"
    "channelTop (11234743 / 262144) 2 = 11234743 / 131072"
    "channelTop (11234743 / 262144) 3 = 8426057 / 65536"
    by code_simp+
  have r: "rasterize (replicate 7 [1]) 1 1 300 black white =
       Inr \<lparr> imageWidth = 1, imageHeight = 300, fillColour = black, lineColour = white,
             drawnLines =
               [Line (1/2) 0 (1/2) 0,
                Line (1/2) (5617371 / 131072) (1/2) (5617371 / 131072),
                Line (1/2) (11234743 / 131072) (1/2) (11234743 / 131072),
                Line (1/2) (8426057 / 65536) (1/2) (8426057 / 65536),
                Line (1/2) (11234743 / 65536) (1/2) (11234743 / 65536),
                Line (1/2) (14043429 / 65536) (1/2) (14043429 / 65536),
                Line (1/2) (8426057 / 32768) (1/2) (8426057 / 32768)] \<rparr>"
    by code_simp
  have m: "(8426057 / 65536 :: rat) \<in> band 300 7 2 \<inter> band 300 7 3"
    by (simp add: band_def v)
  then have ne: "band 300 7 2 \<inter> band 300 7 3 \<noteq> {}" by blast
  have o: "(5617371 / 131072 :: rat) \<notin> band 300 7 1"
    by (simp add: band_def v)
  show ?thesis using r ne o by (simp add: v)
qed

section \<open>Colour arguments\<close>

lemma getHexDigitValue_nonneg_iff: "0 \<le> getHexDigitValue c \<longleftrightarrow> isHexDigit c"
proof -
  have "48 \<le> c \<Longrightarrow> 0 \<le> uint c - 48" "97 \<le> c \<Longrightarrow> 0 \<le> uint c - 97 + 10"
    "65 \<le> c \<Longrightarrow> 0 \<le> uint c - 65 + 10"
    by (simp_all add: word_le_def)
  then show ?thesis
    unfolding getHexDigitValue_def isHexDigit_def by auto
qed

lemma foldl_hex_filter:
  "foldl (\<lambda>result c. let hexValue = getHexDigitValue c
                        in if 0 \<le> hexValue then push_bit 4 result OR word_of_int hexValue
                           else result) a (filter isHexDigit s)
   = foldl (\<lambda>result c. let hexValue = getHexDigitValue c
                        in if 0 \<le> hexValue then push_bit 4 result OR word_of_int hexValue
                           else result) a s"
  by (induction s arbitrary: a) (simp_all add: getHexDigitValue_nonneg_iff Let_def)

lemma getHexValue32_filter: "getHexValue32 (filter isHexDigit s) = getHexValue32 s"
  unfolding getHexValue32_def by (rule foldl_hex_filter)

lemma getHexValue32_Nil: "getHexValue32 [] = 0"
  by (simp add: getHexValue32_def)

lemma getHexValue32_snoc:
  "getHexValue32 (s @ [c]) =
     (if isHexDigit c then push_bit 4 (getHexValue32 s) OR word_of_int (getHexDigitValue c)
      else getHexValue32 s)"
  by (simp add: getHexValue32_def getHexDigitValue_nonneg_iff Let_def)

lemma trim_literals:
  "trim (juceString ''-b'') = juceString ''-b''" "trim (juceString ''-f'') = juceString ''-f''"
  by (simp_all add: trim_def juceString_def isWhitespace_def)

lemma parseArgs_bgColor:
  "parseArgs g (juceString ''-b'' # v # rest) opts = parseArgs g rest (opts\<lparr>bgColor := parseHexColor v\<rparr>)"
  by (simp add: trim_literals Let_def) (simp add: juceString_def)

lemma parseArgs_fgColor:
  "parseArgs g (juceString ''-f'' # v # rest) opts = parseArgs g rest (opts\<lparr>fgColor := parseHexColor v\<rparr>)"
  by (simp add: trim_literals Let_def) (simp add: juceString_def)

lemma substring_take: "substring s 0 2 = take 2 s" "substring s 2 4 = take 2 (drop 2 s)"
  "substring s 4 6 = take 2 (drop 4 s)" "substring s 6 8 = take 2 (drop 6 s)"
  by (simp_all add: substring_def)

lemma getHexValue32_no_digit:
  "\<forall>c\<in>set s. \<not> isHexDigit c \<Longrightarrow> getHexValue32 s = 0"
proof -
  assume "\<forall>c\<in>set s. \<not> isHexDigit c"
  then have "filter isHexDigit s = []" by (simp add: filter_empty_conv)
  then show ?thesis using getHexValue32_filter[of s] by (simp add: getHexValue32_Nil)
qed

text \<open>
  C10. A string of exactly 8 characters always parses to a colour: each component is
  the hexadecimal value of its two characters with the characters that are not
  hexadecimal digits left out, the value being accumulated digit by digit from 0; a
  string without any hexadecimal digit gives \<open>(0, 0, 0, 0)\<close>; and the argument loop
  takes the colour and goes on, whatever the characters.
\<close>

theorem C10_eight_characters_always_parse:
  assumes "length hex = 8"
  shows "parseHexColor hex =
           fromRGBA (getHexValue32 (filter isHexDigit (take 2 hex)))
                    (getHexValue32 (filter isHexDigit (take 2 (drop 2 hex))))
                    (getHexValue32 (filter isHexDigit (take 2 (drop 4 hex))))
                    (getHexValue32 (filter isHexDigit (take 2 (drop 6 hex))))
         \<and> getHexValue32 [] = 0
         \<and> getHexValue32 (s @ [c]) =
             (if isHexDigit c then push_bit 4 (getHexValue32 s) OR word_of_int (getHexDigitValue c)
              else getHexValue32 s)
         \<and> ((\<forall>c\<in>set hex. \<not> isHexDigit c) \<longrightarrow> parseHexColor hex = RGBA 0 0 0 0)
         \<and> parseHexColor (juceString ''zzzzzzzz'') = RGBA 0 0 0 0
         \<and> parseArgs g (juceString ''-b'' # hex # rest) opts =
             parseArgs g rest (opts\<lparr>bgColor := parseHexColor hex\<rparr>)
         \<and> parseArgs g (juceString ''-f'' # hex # rest) opts =
             parseArgs g rest (opts\<lparr>fgColor := parseHexColor hex\<rparr>)"
proof -
  have p: "parseHexColor hex =
           fromRGBA (getHexValue32 (filter isHexDigit (take 2 hex)))
                    (getHexValue32 (filter isHexDigit (take 2 (drop 2 hex))))
                    (getHexValue32 (filter isHexDigit (take 2 (drop 4 hex))))
                    (getHexValue32 (filter isHexDigit (take 2 (drop 6 hex))))"
    using assms by (simp add: parseHexColor_def substring_take getHexValue32_filter)
  have z: "parseHexColor hex = RGBA 0 0 0 0" if "\<forall>c\<in>set hex. \<not> isHexDigit c"
  proof -
    have "\<forall>c\<in>set (take 2 (drop k hex)). \<not> isHexDigit c" for k
      using that by (meson in_set_dropD in_set_takeD)
    then have "getHexValue32 (take 2 (drop k hex)) = 0" for k
      by (rule getHexValue32_no_digit)
    from this[of 0] this[of 2] this[of 4] this[of 6] show ?thesis
      using assms by (simp add: parseHexColor_def substring_take fromRGBA_def)
  qed
  have e: "parseHexColor (juceString ''zzzzzzzz'') = RGBA 0 0 0 0"
    by code_simp
  show ?thesis
    using p z e getHexValue32_Nil getHexValue32_snoc[of s c] parseArgs_bgColor[of g hex rest opts]
      parseArgs_fgColor[of g hex rest opts]
    by blast
qed

theorem C10_eight_characters_always_parse_witness:
  "length (juceString ''g1zzz2Fq'') = 8
   \<and> parseHexColor (juceString ''g1zzz2Fq'') = RGBA 1 0 2 15
   \<and> filter isHexDigit (juceString ''g1zzz2Fq'') = juceString ''12F''"
proof -
  have l: "length (juceString ''g1zzz2Fq'') = 8" by (simp add: juceString_def)
  have v: "fromRGBA (getHexValue32 (filter isHexDigit (take 2 (juceString ''g1zzz2Fq''))))
                    (getHexValue32 (filter isHexDigit (take 2 (drop 2 (juceString ''g1zzz2Fq'')))))
                    (getHexValue32 (filter isHexDigit (take 2 (drop 4 (juceString ''g1zzz2Fq'')))))
                    (getHexValue32 (filter isHexDigit (take 2 (drop 6 (juceString ''g1zzz2Fq'')))))
           = RGBA 1 0 2 15"
    by code_simp
  have f: "filter isHexDigit (juceString ''g1zzz2Fq'') = juceString ''12F''"
    by code_simp
  from C10_eight_characters_always_parse[OF l] have
    "parseHexColor (juceString ''g1zzz2Fq'') =
       fromRGBA (getHexValue32 (filter isHexDigit (take 2 (juceString ''g1zzz2Fq''))))
                    (getHexValue32 (filter isHexDigit (take 2 (drop 2 (juceString ''g1zzz2Fq'')))))
                    (getHexValue32 (filter isHexDigit (take 2 (drop 4 (juceString ''g1zzz2Fq'')))))
                    (getHexValue32 (filter isHexDigit (take 2 (drop 6 (juceString ''g1zzz2Fq'')))))"
    by (rule conjunct1)
  with l v f show ?thesis by simp
qed

text \<open>
  C8, as amended. A colour argument is never an error, whatever its length and its
  characters: the argument loop stores what \<^verbatim>\<open>parseHexColor\<close> returns for it, as
  background or as foreground, and goes on to the next argument. For an argument whose
  length is not 8, what \<^verbatim>\<open>parseHexColor\<close> returns is opaque black.
\<close>

theorem C8_malformed_colour_is_not_an_error:
  "parseArgs g (juceString ''-b'' # hex # rest) opts =
     parseArgs g rest (opts\<lparr>bgColor := parseHexColor hex\<rparr>)
   \<and> parseArgs g (juceString ''-f'' # hex # rest) opts =
     parseArgs g rest (opts\<lparr>fgColor := parseHexColor hex\<rparr>)
   \<and> (length hex \<noteq> 8 \<longrightarrow> parseHexColor hex = black \<and> black = RGBA 0 0 0 255)"
  by (simp only: parseArgs_bgColor parseArgs_fgColor) (simp add: parseHexColor_def black_def)

theorem C8_malformed_colour_is_not_an_error_witness:
  "length (juceString ''red'') \<noteq> 8 \<and> parseHexColor (juceString ''red'') = RGBA 0 0 0 255"
proof -
  have l: "length (juceString ''red'') \<noteq> 8" by (simp add: juceString_def)
  from C8_malformed_colour_is_not_an_error[of _ "juceString ''red''"] l show ?thesis by simp
qed

text \<open>
  C8 as stated fails: neither the background \<^verbatim>\<open>-b red\<close> (3 characters) nor the
  background \<^verbatim>\<open>-b zzzzzzzz\<close> (8 characters, none of them a hexadecimal digit) ends
  the run with the help text and exit code 1; the run renders, on opaque black in the
  first case, saves and returns 0.
\<close>

theorem C8_short_colour_counterexample:
  "wmain zeroDoubleValue
     (map juceString [''-i'', ''a.wav'', ''-o'', ''b.png'', ''-w'', ''1'', ''-h'', ''2'', ''-b'', ''red''])
     (exampleEnv (monoReader [1/2, -1/2] 1) None True [137, 80, 78, 71])
   = Inr \<lparr> exitCode = 0, printed = [Parameters, Saved], outputAfter = Some [137, 80, 78, 71],
           rendered = Some \<lparr> imageWidth = 1, imageHeight = 2, fillColour = RGBA 0 0 0 255,
                              lineColour = RGBA 255 255 255 255,
                              drawnLines = [Line (1/2) (3/2) (1/2) (1/2)] \<rparr> \<rparr>
   \<and> wmain zeroDoubleValue
     (map juceString [''-i'', ''a.wav'', ''-o'', ''b.png'', ''-w'', ''1'', ''-h'', ''2'', ''-b'', ''zzzzzzzz''])
     (exampleEnv (monoReader [1/2, -1/2] 1) None True [137, 80, 78, 71])
   = Inr \<lparr> exitCode = 0, printed = [Parameters, Saved], outputAfter = Some [137, 80, 78, 71],
           rendered = Some \<lparr> imageWidth = 1, imageHeight = 2, fillColour = RGBA 0 0 0 0,
                              lineColour = RGBA 255 255 255 255,
                              drawnLines = [Line (1/2) (3/2) (1/2) (1/2)] \<rparr> \<rparr>"
  by code_simp

section \<open>Canvas size and output file\<close>

lemma columnLoop_no_columns:
  "W \<le> i \<Longrightarrow> columnLoop samples W N h midY i drawn = Inr drawn"
  by (simp add: columnLoop.simps)

lemma channelLoop_no_columns:
  "W \<le> 0 \<Longrightarrow> channelLoop buffer W N h ch drawn = Inr drawn"
proof (induction buffer W N h ch drawn rule: channelLoop.induct)
  case (1 buffer W' N' h' ch drawn)
  show ?case
  proof (cases "ch < length buffer")
    case True
    have c: "columnLoop (buffer ! ch) W' N' h' (channelMidY h' (int ch)) 0 drawn = Inr drawn"
      using "1.prems" by (rule columnLoop_no_columns)
    have "channelLoop buffer W' N' h' (ch + 1) drawn = Inr drawn"
      using "1.IH"[OF True c] "1.prems" by simp
    then show ?thesis using True c
      by (simp add: channelLoop.simps[of buffer W' N' h' ch])
  next
    case False
    then show ?thesis by (simp add: channelLoop.simps[of buffer W' N' h' ch])
  qed
qed

lemma rasterize_no_columns:
  "W \<le> 0 \<Longrightarrow> rasterize buffer N W H bg fg =
     Inr \<lparr> imageWidth = W, imageHeight = H, fillColour = bg, lineColour = fg, drawnLines = [] \<rparr>"
  by (simp add: rasterize_def channelLoop_no_columns)

lemma rasterize_no_channels:
  "rasterize [] N W H bg fg =
     Inr \<lparr> imageWidth = W, imageHeight = H, fillColour = bg, lineColour = fg, drawnLines = [] \<rparr>"
  by (simp add: rasterize_def channelLoop.simps[of "[]"])

text \<open>
  C9, as amended. Of the canvas inputs the caller checks the upper bound only. When the
  arguments parse and name an input and an output, a width or height above 16384 ends
  the run with the size message and exit code 1, nothing rendered and the output path
  untouched; any other width and height, zero and negative ones included, go to the
  rasterizer with whatever channel count the reader reports. The rasterizer has no
  failure branch for them: with a width of 0 or less, or with no channel, its loops run
  zero times and it returns the filled image without a line.
\<close>

theorem C9_only_oversize_is_rejected:
  assumes "args \<noteq> []" "parseArgs g args defaultOptions = Inr opts"
    and "inputFile opts \<noteq> []" "outputFile opts \<noteq> []"
  shows "(maxImageDimension < width opts \<or> maxImageDimension < height opts \<longrightarrow>
            wmain g args env = Inr (stop 1 [ImageSizeTooLarge] env)
            \<and> rendered (stop 1 [ImageSizeTooLarge] env) = None
            \<and> exitCode (stop 1 [ImageSizeTooLarge] env) = 1)
         \<and> (width opts \<le> maxImageDimension \<and> height opts \<le> maxImageDimension
              \<and> existsAsFile env (inputFile opts)
              \<and> createReaderFor env (inputFile opts) = Some reader \<longrightarrow>
            wmain g args env = renderAndSave opts reader env)
         \<and> (W \<le> 0 \<longrightarrow> rasterize buffer N W H bg fg =
              Inr \<lparr> imageWidth = W, imageHeight = H, fillColour = bg, lineColour = fg,
                    drawnLines = [] \<rparr>)
         \<and> rasterize [] N W H bg fg =
              Inr \<lparr> imageWidth = W, imageHeight = H, fillColour = bg, lineColour = fg,
                    drawnLines = [] \<rparr>"
proof -
  have a: "wmain g args env = Inr (stop 1 [ImageSizeTooLarge] env)"
    if "maxImageDimension < width opts \<or> maxImageDimension < height opts"
    using assms that by (simp add: wmain_def)
  have b: "wmain g args env = renderAndSave opts reader env"
    if "width opts \<le> maxImageDimension \<and> height opts \<le> maxImageDimension
        \<and> existsAsFile env (inputFile opts) \<and> createReaderFor env (inputFile opts) = Some reader"
    using assms that by (auto simp: wmain_def)
  show ?thesis
    using a b rasterize_no_columns[of W buffer N H bg fg] rasterize_no_channels[of N W H bg fg]
    by (simp add: stop_def)
qed

theorem C9_only_oversize_is_rejected_witness:
  "wmain zeroDoubleValue (map juceString [''-i'', ''a.wav'', ''-o'', ''b.png'', ''-w'', ''20000''])
     (exampleEnv (monoReader [1/2] 1) (Some [1, 2, 3]) True [])
   = Inr \<lparr> exitCode = 1, printed = [ImageSizeTooLarge], outputAfter = Some [1, 2, 3],
           rendered = None \<rparr>"
proof -
  let ?args = "map juceString [''-i'', ''a.wav'', ''-o'', ''b.png'', ''-w'', ''20000'']"
  let ?opts = "defaultOptions\<lparr>inputFile := juceString ''a.wav'', outputFile := juceString ''b.png'',
                 width := 20000\<rparr>"
  let ?env = "exampleEnv (monoReader [1/2] 1) (Some [1, 2, 3]) True []"
  have h1: "?args \<noteq> []" by simp
  have h2: "parseArgs zeroDoubleValue ?args defaultOptions = Inr ?opts" by code_simp
  have h3: "inputFile ?opts \<noteq> []" by (simp add: juceString_def)
  have h4: "outputFile ?opts \<noteq> []" by (simp add: juceString_def)
  have big: "maxImageDimension < width ?opts \<or> maxImageDimension < height ?opts"
    by (simp add: maxImageDimension_def)
  have s: "stop 1 [ImageSizeTooLarge] ?env =
      \<lparr> exitCode = 1, printed = [ImageSizeTooLarge], outputAfter = Some [1, 2, 3], rendered = None \<rparr>"
    by (simp add: stop_def exampleEnv_def)
  from C9_only_oversize_is_rejected[OF h1 h2 h3 h4, of ?env] big
  have "wmain zeroDoubleValue ?args ?env = Inr (stop 1 [ImageSizeTooLarge] ?env)" by blast
  then show ?thesis by (simp only: s)
qed

text \<open>
  C9 as stated fails: \<^verbatim>\<open>-w 0\<close> passes the only check, the parameters are printed,
  the input is read and the rasterizer is run on a canvas of width 0; the run ends at
  the encoder (which here refuses the image), not at the size check.
\<close>

theorem C9_zero_width_counterexample:
  "wmain zeroDoubleValue (map juceString [''-i'', ''a.wav'', ''-o'', ''b.png'', ''-w'', ''0''])
     (exampleEnv (monoReader [1/2] 1) None False [])
   = Inr \<lparr> exitCode = 1, printed = [Parameters, FailedToSave], outputAfter = Some [],
           rendered = Some \<lparr> imageWidth = 0, imageHeight = 300, fillColour = RGBA 0 0 0 0,
                              lineColour = RGBA 255 255 255 255, drawnLines = [] \<rparr> \<rparr>"
  by code_simp

text \<open>
  C7, as amended. The program deletes an existing output file before it encodes (lines
  167 and 168). So when a run reaches the encoder with a file at the output path,
  the deletion succeeds and the encoder fails, the run returns 1 after "Failed to save
  image." and the output path holds exactly the bytes the encoder wrote before it
  failed: the previous content is gone.
\<close>

theorem C7_failed_encode_replaces_output:
  assumes "wmain g args env = Inr r" "rendered r = Some img"
    and "outputBefore env = Some old" "deleteSucceeds env"
    and "\<not> fst (writeImageToStream env img)"
  shows "exitCode r = 1 \<and> printed r = [Parameters, FailedToSave]
         \<and> outputAfter r = Some (snd (writeImageToStream env img))"
proof -
  have "r = saveImage img env"
    using assms(1,2)
    by (auto simp: wmain_def renderAndSave_def stop_def saveImage_def Let_def
        split: if_splits sum.splits option.splits)
  then show ?thesis using assms(3-5) by (simp add: saveImage_def Let_def)
qed

theorem C7_failed_encode_replaces_output_witness:
  "wmain zeroDoubleValue
     (map juceString [''-i'', ''a.wav'', ''-o'', ''b.png'', ''-w'', ''1'', ''-h'', ''2''])
     (exampleEnv (monoReader [1/2, -1/2] 1) (Some [1, 2, 3]) False [9])
   = Inr \<lparr> exitCode = 1, printed = [Parameters, FailedToSave], outputAfter = Some [9],
           rendered = Some \<lparr> imageWidth = 1, imageHeight = 2, fillColour = RGBA 0 0 0 0,
                              lineColour = RGBA 255 255 255 255,
                              drawnLines = [Line (1/2) (3/2) (1/2) (1/2)] \<rparr> \<rparr>
   \<and> outputAfter \<lparr> exitCode = 1, printed = [Parameters, FailedToSave], outputAfter = Some [9],
           rendered = Some \<lparr> imageWidth = 1, imageHeight = 2, fillColour = RGBA 0 0 0 0,
                              lineColour = RGBA 255 255 255 255,
                              drawnLines = [Line (1/2) (3/2) (1/2) (1/2)] \<rparr> \<rparr> = Some [9]"
proof -
  let ?env = "exampleEnv (monoReader [1/2, -1/2] 1) (Some [1, 2, 3]) False [9]"
  let ?img = "\<lparr> imageWidth = 1, imageHeight = 2, fillColour = RGBA 0 0 0 0,
                lineColour = RGBA 255 255 255 255,
                drawnLines = [Line (1/2) (3/2) (1/2) (1/2)] \<rparr>"
  let ?r = "\<lparr> exitCode = 1, printed = [Parameters, FailedToSave], outputAfter = Some [9],
              rendered = Some ?img \<rparr>"
  have w: "wmain zeroDoubleValue
     (map juceString [''-i'', ''a.wav'', ''-o'', ''b.png'', ''-w'', ''1'', ''-h'', ''2'']) ?env = Inr ?r"
    by code_simp
  have r: "rendered ?r = Some ?img" by simp
  have o: "outputBefore ?env = Some [1, 2, 3]" by (simp add: exampleEnv_def)
  have d: "deleteSucceeds ?env" by (simp add: exampleEnv_def)
  have f: "\<not> fst (writeImageToStream ?env ?img)" by (simp add: exampleEnv_def)
  have b: "snd (writeImageToStream ?env ?img) = [9]" by (simp add: exampleEnv_def)
  from C7_failed_encode_replaces_output[OF w r o d f] b
  have "outputAfter ?r = Some [9]" by simp
  with w show ?thesis by simp
qed

text \<open>
  C7 as stated fails: with the bytes 1, 2, 3 at the output path and an encoder that
  fails before writing anything, the run leaves an empty file at the path.
\<close>

theorem C7_previous_file_lost_counterexample:
  "outputBefore (exampleEnv (monoReader [1/2, -1/2] 1) (Some [1, 2, 3]) False []) = Some [1, 2, 3]
   \<and> wmain zeroDoubleValue
     (map juceString [''-i'', ''a.wav'', ''-o'', ''b.png'', ''-w'', ''1'', ''-h'', ''2''])
     (exampleEnv (monoReader [1/2, -1/2] 1) (Some [1, 2, 3]) False [])
   = Inr \<lparr> exitCode = 1, printed = [Parameters, FailedToSave], outputAfter = Some [],
           rendered = Some \<lparr> imageWidth = 1, imageHeight = 2, fillColour = RGBA 0 0 0 0,
                              lineColour = RGBA 255 255 255 255,
                              drawnLines = [Line (1/2) (3/2) (1/2) (1/2)] \<rparr> \<rparr>"
  by code_simp

section \<open>Further properties\<close>

text \<open>
  When the requested end reaches back no further than the start of the audio
  (\<open>-duration \<le> endTime\<close>), the window is ordered, \<open>0 \<le> actualStart \<le> actualEnd \<le>
  duration\<close>, and the first sample and the sample count are not negative.
\<close>

theorem resolveWindow_ordered:
  assumes "0 \<le> d" "- d \<le> e" "0 < r"
  shows "0 \<le> actualStart (resolveWindow s e d r)
       \<and> actualStart (resolveWindow s e d r) \<le> actualEnd (resolveWindow s e d r)
       \<and> actualEnd (resolveWindow s e d r) \<le> d
       \<and> 0 \<le> startSample (resolveWindow s e d r)
       \<and> 0 \<le> numSamples (resolveWindow s e d r)"
proof -
  let ?w = "resolveWindow s e d r"
  have "0 \<le> d + e" using assms by simp
  then have sum: "0 \<le> dadd d e" unfolding dadd_def by (rule fl64_nonneg)
  have e0: "0 \<le> actualEnd ?w" "actualEnd ?w \<le> d"
    using assms sum by (auto simp: resolveWindow_def jmin_def Let_def)
  have s0: "0 \<le> actualStart ?w" "actualStart ?w \<le> actualEnd ?w"
    using e0 by (auto simp: resolveWindow_def jlimit_def Let_def)
  have "0 \<le> actualStart ?w * r" using s0 assms(3) by simp
  then have a: "0 \<le> dmul (actualStart ?w) r" unfolding dmul_def by (rule fl64_nonneg)
  have "0 \<le> actualEnd ?w - actualStart ?w" using s0 by simp
  then have "0 \<le> dsub (actualEnd ?w) (actualStart ?w)" unfolding dsub_def by (rule fl64_nonneg)
  then have "0 \<le> dsub (actualEnd ?w) (actualStart ?w) * r" using assms(3) by simp
  then have b: "0 \<le> dmul (dsub (actualEnd ?w) (actualStart ?w)) r"
    unfolding dmul_def by (rule fl64_nonneg)
  have "0 \<le> truncToZero (dmul (actualStart ?w) r)"
    "0 \<le> truncToZero (dmul (dsub (actualEnd ?w) (actualStart ?w)) r)"
    using a b by (simp_all add: truncToZero_nonneg)
  moreover have "startSample ?w = truncToZero (dmul (actualStart ?w) r)"
    "numSamples ?w = truncToZero (dmul (dsub (actualEnd ?w) (actualStart ?w)) r)"
    by (simp_all add: resolveWindow_def Let_def)
  ultimately show ?thesis using e0 s0 by simp
qed

theorem resolveWindow_ordered_witness:
  "actualStart (resolveWindow 5 (- 10) 100 44100) = 5
   \<and> actualEnd (resolveWindow 5 (- 10) 100 44100) = 90
   \<and> 0 \<le> startSample (resolveWindow 5 (- 10) 100 44100)
   \<and> 0 \<le> numSamples (resolveWindow 5 (- 10) 100 44100)"
proof -
  have v: "actualStart (resolveWindow 5 (- 10) 100 44100) = 5"
    "actualEnd (resolveWindow 5 (- 10) 100 44100) = 90"
    by code_simp+
  from resolveWindow_ordered[of 100 "- 10" 44100 5] v show ?thesis by simp
qed

lemma rasterize_lines:
  assumes "0 < N" "N < 2 ^ 31" "\<forall>samples\<in>set buffer. int (length samples) = N"
  shows "\<exists>ls. rasterize buffer N W H bg fg =
            Inr \<lparr> imageWidth = W, imageHeight = H, fillColour = bg, lineColour = fg, drawnLines = ls \<rparr>
          \<and> length ls = nat W * length buffer"
proof -
  have a: "\<forall>c < length buffer. int (length (buffer ! c)) = N"
    using assms(3) by (simp add: all_set_conv_all_nth)
  have "length (concat (map (\<lambda>c. map (f c) [0..W - 1]) [0..<n])) = nat W * n" for f :: "nat \<Rightarrow> int \<Rightarrow> line" and n
    by (induction n) simp_all
  then show ?thesis using rasterize_eq[OF assms(1,2) a, of W H bg fg] by simp
qed

text \<open>
  When every channel of the buffer holds \<open>N\<close> samples and \<open>N\<close> is at least 1, the
  rasterizer reads no sample outside the buffer: it returns the image, with one line per
  column and channel.
\<close>

theorem rasterize_defined:
  assumes "0 < N" "N < 2 ^ 31" "\<forall>samples\<in>set buffer. int (length samples) = N"
  shows "\<exists>ls. rasterize buffer N W H bg fg =
            Inr \<lparr> imageWidth = W, imageHeight = H, fillColour = bg, lineColour = fg, drawnLines = ls \<rparr>
          \<and> length ls = nat W * length buffer"
  using assms by (rule rasterize_lines)

theorem rasterize_defined_witness:
  "\<exists>ls. rasterize [[1/2, - 1/2]] 2 1 2 black white =
          Inr \<lparr> imageWidth = 1, imageHeight = 2, fillColour = black, lineColour = white,
                drawnLines = ls \<rparr>
        \<and> length ls = 1"
  using rasterize_defined[of 2 "[[1/2, - 1/2]]" 1 2 black white] by simp

lemma parseArgs_keeps_bgColor:
  "parseArgs g args opts = Inr opts' \<Longrightarrow> \<forall>a\<in>set args. trim a \<noteq> juceString ''-b'' \<Longrightarrow>
   bgColor opts' = bgColor opts"
  by (induction g args opts rule: parseArgs.induct) (auto simp: Let_def split: if_splits)

text \<open>
  Without a \<^verbatim>\<open>-b\<close> option the background is transparent black, the initial value
  of line 53 (the help text names \<^verbatim>\<open>000000FF\<close>).
\<close>

theorem default_background_is_transparent:
  assumes "parseArgs g args defaultOptions = Inr opts"
    and "\<forall>a\<in>set args. trim a \<noteq> juceString ''-b''"
  shows "bgColor opts = RGBA 0 0 0 0"
  using parseArgs_keeps_bgColor[OF assms] by (simp add: defaultOptions_def transparentBlack_def)

theorem default_background_is_transparent_witness:
  "bgColor (defaultOptions\<lparr>inputFile := juceString ''a.wav'', outputFile := juceString ''b.png''\<rparr>)
     = RGBA 0 0 0 0"
proof -
  let ?args = "map juceString [''-i'', ''a.wav'', ''-o'', ''b.png'']"
  have p: "parseArgs zeroDoubleValue ?args defaultOptions =
      Inr (defaultOptions\<lparr>inputFile := juceString ''a.wav'', outputFile := juceString ''b.png''\<rparr>)"
    by code_simp
  have n: "\<forall>a\<in>set ?args. trim a \<noteq> juceString ''-b''"
    by code_simp
  from default_background_is_transparent[OF p n] show ?thesis .
qed

lemma readBuffer_lengths:
  assumes "0 \<le> N" "N < 2 ^ 31"
  shows "\<exists>buffer. readBuffer reader first N = Inr buffer
           \<and> length buffer = numChannels reader
           \<and> (\<forall>samples\<in>set buffer. int (length samples) = N)"
  using assms by (auto simp: readBuffer_def int32_id Let_def)

text \<open>
  When the window selects at least one sample, the run from the reader to the file
  meets no fault: the buffer is read, the image is rendered with the requested size and
  colours and one line per column and channel, and the image goes to the encoder.
\<close>

theorem renderAndSave_defined:
  assumes "0 < numSamples (resolveWindow (startTime opts) (endTime opts)
                 (ddiv (toDouble (lengthInSamples reader)) (sampleRate reader)) (sampleRate reader))"
    and "numSamples (resolveWindow (startTime opts) (endTime opts)
                 (ddiv (toDouble (lengthInSamples reader)) (sampleRate reader)) (sampleRate reader)) < 2 ^ 31"
  shows "\<exists>img. renderAndSave opts reader env = Inr (saveImage img env)
           \<and> imageWidth img = width opts \<and> imageHeight img = height opts
           \<and> fillColour img = bgColor opts \<and> lineColour img = fgColor opts
           \<and> length (drawnLines img) = nat (width opts) * numChannels reader"
proof -
  let ?w = "resolveWindow (startTime opts) (endTime opts)
                 (ddiv (toDouble (lengthInSamples reader)) (sampleRate reader)) (sampleRate reader)"
  from readBuffer_lengths[of "numSamples ?w" reader "startSample ?w"] assms
  obtain buffer where b: "readBuffer reader (startSample ?w) (numSamples ?w) = Inr buffer"
    "length buffer = numChannels reader"
    "\<forall>samples\<in>set buffer. int (length samples) = numSamples ?w" by auto
  from rasterize_lines[OF assms(1,2) b(3), of "width opts" "height opts" "bgColor opts" "fgColor opts"]
  obtain ls where r: "rasterize buffer (numSamples ?w) (width opts) (height opts) (bgColor opts) (fgColor opts)
     = Inr \<lparr> imageWidth = width opts, imageHeight = height opts, fillColour = bgColor opts,
             lineColour = fgColor opts, drawnLines = ls \<rparr>"
    "length ls = nat (width opts) * length buffer" by blast
  have "renderAndSave opts reader env =
      Inr (saveImage \<lparr> imageWidth = width opts, imageHeight = height opts, fillColour = bgColor opts,
             lineColour = fgColor opts, drawnLines = ls \<rparr> env)"
    using b(1) r(1) by (simp add: renderAndSave_def Let_def)
  then show ?thesis
    using r(2) b(2)
    by (intro exI[of _ "\<lparr> imageWidth = width opts, imageHeight = height opts,
          fillColour = bgColor opts, lineColour = fgColor opts, drawnLines = ls \<rparr>"]) simp
qed

theorem renderAndSave_defined_witness:
  "\<exists>img. renderAndSave (defaultOptions\<lparr>width := 1, height := 2\<rparr>) (monoReader [1/2, - 1/2] 1)
            (exampleEnv (monoReader [1/2, - 1/2] 1) None True [137, 80, 78, 71])
          = Inr (saveImage img (exampleEnv (monoReader [1/2, - 1/2] 1) None True [137, 80, 78, 71]))
        \<and> length (drawnLines img) = 1"
proof -
  let ?opts = "defaultOptions\<lparr>width := 1, height := 2\<rparr>"
  let ?reader = "monoReader [1/2, - 1/2] 1"
  have n: "numSamples (resolveWindow (startTime ?opts) (endTime ?opts)
                 (ddiv (toDouble (lengthInSamples ?reader)) (sampleRate ?reader)) (sampleRate ?reader)) = 2"
    by code_simp
  have c: "numChannels ?reader = 1" "width ?opts = 1" by (simp_all add: monoReader_def)
  from renderAndSave_defined[of ?opts ?reader
      "exampleEnv (monoReader [1/2, - 1/2] 1) None True [137, 80, 78, 71]"]
  show ?thesis unfolding n c by auto
qed

text \<open>
  The specification's examples: the envelope of the four samples 0.1, -0.5, 0.3,
  -0.2 (as \<^verbatim>\<open>float\<close>) in one column is (-0.5, 0.3); the start 150 on 100 seconds of
  audio collapses to the window (100, 100) of no samples; \<^verbatim>\<open>1E1E1EFF\<close> parses to
  (0x1E, 0x1E, 0x1E, 0xFF).
\<close>

theorem spec_examples:
  "envelope [fl32 (1/10), - 1/2, fl32 (3/10), fl32 (- 1/5)] 1 4 0 = Inr (- 1/2, fl32 (3/10))
   \<and> (actualStart (resolveWindow 150 0 100 44100), actualEnd (resolveWindow 150 0 100 44100)) = (100, 100)
   \<and> numSamples (resolveWindow 150 0 100 44100) = 0
   \<and> parseHexColor (juceString ''1E1E1EFF'') = RGBA 0x1E 0x1E 0x1E 0xFF"
  by code_simp

end
